theory Spec2Isabelle
  imports Main "HOL-Library.AList" "HOL-Library.Word"
begin

section \<open>Dynamic values, failures and the library functions the parser calls\<close>

text \<open>
  The parser of \<^verbatim>\<open>parser.go\<close> produces values of Go's \<^verbatim>\<open>interface{}\<close>: raw strings,
  \<^verbatim>\<open>int\<close>, \<^verbatim>\<open>int64\<close>, \<^verbatim>\<open>float64\<close>, \<^verbatim>\<open>bool\<close>, \<^verbatim>\<open>[]interface{}\<close>,
  \<^verbatim>\<open>map[string]interface{}\<close> and \<^verbatim>\<open>nil\<close>. A \<^verbatim>\<open>float64\<close> is kept as its IEEE-754 bit
  pattern. Go maps are association lists with distinct keys: \<open>map_of\<close> reads them and
  \<open>AList.update\<close> writes them. The order of such a list is the order in which a
  \<^verbatim>\<open>range\<close> loop visits the map; Go leaves that order open, so every theorem about a loop
  over a map is stated for an arbitrary list.
\<close>

type_synonym float64 = "64 word"

datatype val =
    VNil
  | VString string
  | VInt int
  | VInt64 int
  | VFloat float64
  | VBool bool
  | VArray "val list"
  | VObject "(string \<times> val) list"

datatype panic =
    SliceBoundsOutOfRange
  | IndexOutOfRange
  | MakeSliceLenOutOfRange
  | SetUnexportedField

datatype error =
    ParseQueryError
  | QueryUnescapeError
  | MarshalError
  | Panic panic

subsection \<open>strconv\<close>

text \<open>
  \<^verbatim>\<open>strconv.ParseUint(s, 10, bitSize)\<close>, \<^verbatim>\<open>strconv.ParseInt(s, 10, bitSize)\<close> and
  \<^verbatim>\<open>strconv.Atoi\<close> of the Go standard library, for base 10 (where no underscore is
  accepted) and a 64-bit \<^verbatim>\<open>int\<close>. \<open>None\<close> stands for a non-nil error, of syntax or of
  range.
\<close>

definition isDigit :: "char \<Rightarrow> bool" where
  "isDigit c = (c \<in> set ''0123456789'')"

definition digitVal :: "char \<Rightarrow> int" where
  "digitVal c = of_char c - 48"

fun digitsLoop :: "string \<Rightarrow> int \<Rightarrow> int option" where
  "digitsLoop [] n = Some n"
| "digitsLoop (c # cs) n = (if isDigit c then digitsLoop cs (n * 10 + digitVal c) else None)"

definition ParseUint :: "string \<Rightarrow> nat \<Rightarrow> int option" where
  "ParseUint s bitSize =
     (if s = [] then None
      else case digitsLoop s 0 of
             None \<Rightarrow> None
           | Some un \<Rightarrow> if un < 2 ^ bitSize then Some un else None)"

definition ParseInt :: "string \<Rightarrow> nat \<Rightarrow> int option" where
  "ParseInt s bitSize =
     (case s of
        [] \<Rightarrow> None
      | c # r \<Rightarrow>
          let neg = (c = CHR ''-'');
              s' = (if c = CHR ''+'' \<or> c = CHR ''-'' then r else s);
              cutoff = (2::int) ^ (bitSize - 1)
          in case ParseUint s' bitSize of
               None \<Rightarrow> None
             | Some un \<Rightarrow>
                 if \<not> neg \<and> un \<ge> cutoff then None
                 else if neg \<and> un > cutoff then None
                 else Some (if neg then - un else un))"

definition Atoi :: "string \<Rightarrow> int option" where
  "Atoi s = ParseInt s 64"

text \<open>\<^verbatim>\<open>strconv.ParseBool\<close>: exactly twelve literals are accepted.\<close>

definition ParseBool :: "string \<Rightarrow> bool option" where
  "ParseBool s =
     (if s \<in> set [''1'', ''t'', ''T'', ''TRUE'', ''true'', ''True''] then Some True
      else if s \<in> set [''0'', ''f'', ''F'', ''FALSE'', ''false'', ''False''] then Some False
      else None)"

text \<open>
  \<^verbatim>\<open>strconv.ParseFloat(s, 64)\<close> rounds to IEEE-754 and is not part of the repository. Every
  function that reaches it takes it as the parameter \<open>pf\<close>, of type
  \<open>string \<Rightarrow> float64 option\<close> (\<open>None\<close> for a non-nil error), and every theorem holds
  for every such function.
\<close>

section \<open>Leaf coercion\<close>

text \<open>\<^verbatim>\<open>isNumeric\<close> (parser.go, line 741).\<close>

definition isNumeric :: "string \<Rightarrow> bool" where
  "isNumeric s = (case Atoi s of Some _ \<Rightarrow> True | None \<Rightarrow> False)"

text \<open>\<^verbatim>\<open>convertValueToType\<close> (parser.go, line 640).\<close>

definition convertValueToType :: "(string \<Rightarrow> float64 option) \<Rightarrow> string \<Rightarrow> val" where
  "convertValueToType pf v =
     (case Atoi v of
        Some intVal \<Rightarrow> VInt intVal
      | None \<Rightarrow>
          (case ParseInt v 64 of
             Some int64Val \<Rightarrow> VInt64 int64Val
           | None \<Rightarrow>
               (case pf v of
                  Some floatVal \<Rightarrow> VFloat floatVal
                | None \<Rightarrow>
                    (case ParseBool v of
                       Some boolVal \<Rightarrow> VBool boolVal
                     | None \<Rightarrow> VString v))))"

section \<open>Strings, slices and formatting\<close>

text \<open>
  \<^verbatim>\<open>strings.HasPrefix\<close>, \<^verbatim>\<open>strings.Contains\<close> and \<^verbatim>\<open>strings.Index\<close> (\<open>- 1\<close> when the
  substring does not occur). Strings are byte sequences, as in Go.
\<close>

definition HasPrefix :: "string \<Rightarrow> string \<Rightarrow> bool" where
  "HasPrefix s p = (take (length p) s = p)"

fun Contains :: "string \<Rightarrow> string \<Rightarrow> bool" where
  "Contains [] sub = (sub = [])"
| "Contains (c # cs) sub = (HasPrefix (c # cs) sub \<or> Contains cs sub)"

fun Index :: "string \<Rightarrow> string \<Rightarrow> int" where
  "Index [] sub = (if sub = [] then 0 else - 1)"
| "Index (c # cs) sub =
     (if HasPrefix (c # cs) sub then 0
      else let i = Index cs sub in if i < 0 then - 1 else i + 1)"

text \<open>
  The slice expressions \<^verbatim>\<open>s[:hi]\<close> and \<^verbatim>\<open>s[lo:]\<close>: a bound outside \<open>0..len(s)\<close> is a
  run-time panic.
\<close>

definition sliceTo :: "string \<Rightarrow> int \<Rightarrow> error + string" where
  "sliceTo s hi =
     (if 0 \<le> hi \<and> hi \<le> int (length s) then Inr (take (nat hi) s)
      else Inl (Panic SliceBoundsOutOfRange))"

definition sliceFrom :: "string \<Rightarrow> int \<Rightarrow> error + string" where
  "sliceFrom s lo =
     (if 0 \<le> lo \<and> lo \<le> int (length s) then Inr (drop (nat lo) s)
      else Inl (Panic SliceBoundsOutOfRange))"

text \<open>
  \<^verbatim>\<open>regexp.MustCompile(`\[([^\]]+)\]`).FindAllStringSubmatch(s, -1)\<close>, reduced to the
  captured group of every match: scanning from the left, an opening bracket followed by a
  non-empty run of characters other than the closing bracket and then a closing bracket is
  a match, and the scan resumes behind it; anywhere else the scan moves on by one
  character.
\<close>

function FindAllStringSubmatch :: "string \<Rightarrow> string list" where
  "FindAllStringSubmatch [] = []"
| "FindAllStringSubmatch (c # cs) =
     (if c = CHR ''[''
      then let content = takeWhile (\<lambda>x. x \<noteq> CHR '']'') cs;
               after = dropWhile (\<lambda>x. x \<noteq> CHR '']'') cs
           in if content \<noteq> [] \<and> after \<noteq> []
              then content # FindAllStringSubmatch (tl after)
              else FindAllStringSubmatch cs
      else FindAllStringSubmatch cs)"
  by pat_completeness auto
termination
proof (relation "measure length")
  fix c :: char and cs content after
  assume "after = dropWhile (\<lambda>x. x \<noteq> CHR '']'') cs"
  then have "length after \<le> length cs"
    by (simp add: length_dropWhile_le)
  then show "(tl after, c # cs) \<in> measure length"
    by simp
qed auto

text \<open>\<^verbatim>\<open>fmt.Sprintf("%d", i)\<close>.\<close>

function digitsOf :: "int \<Rightarrow> string" where
  "digitsOf n =
     (if n < 10 then [char_of (48 + n)]
      else digitsOf (n div 10) @ [char_of (48 + n mod 10)])"
  by pat_completeness auto
termination
  by (relation "measure nat") auto

declare digitsOf.simps [simp del]

definition FormatInt :: "int \<Rightarrow> string" where
  "FormatInt i = (if i < 0 then CHR ''-'' # digitsOf (- i) else digitsOf i)"

text \<open>Addition on Go's 64-bit \<^verbatim>\<open>int\<close> wraps around.\<close>

definition addInt :: "int \<Rightarrow> int \<Rightarrow> int" where
  "addInt a b = sint (word_of_int (a + b) :: 64 word)"

section \<open>The key-path parser\<close>

text \<open>The struct \<^verbatim>\<open>parsedKey\<close> (parser.go, line 28).\<close>

record parsedKey =
  baseKey :: string
  isArray :: bool
  isNested :: bool
  arrayIndex :: int
  path :: "string list"

text \<open>
  \<^verbatim>\<open>parseKeyStructure\<close> (parser.go, line 505). The base key is \<^verbatim>\<open>key[:openBracket]\<close>
  with \<^verbatim>\<open>openBracket = strings.Index(key, "[")\<close>, which is \<open>- 1\<close> for a key that holds
  a closing bracket and no opening one.
\<close>

definition parseKeyStructure :: "string \<Rightarrow> error + parsedKey" where
  "parseKeyStructure key =
     (let result = \<lparr>baseKey = [], isArray = False, isNested = False, arrayIndex = 0, path = []\<rparr>
      in if \<not> Contains key ''['' \<and> \<not> Contains key '']'' then Inr (result\<lparr>baseKey := key\<rparr>)
         else
           let openBracket = Index key ''[''
           in case sliceTo key openBracket of
                Inl e \<Rightarrow> Inl e
              | Inr base \<Rightarrow>
                  (case sliceFrom key openBracket of
                     Inl e \<Rightarrow> Inl e
                   | Inr rest \<Rightarrow>
                       (case FindAllStringSubmatch rest of
                          [] \<Rightarrow> Inr (result\<lparr>baseKey := base\<rparr>)
                        | firstMatch # others \<Rightarrow>
                            if isNumeric firstMatch
                            then Inr (result\<lparr>baseKey := base, isArray := True,
                                        arrayIndex := (case Atoi firstMatch of Some i \<Rightarrow> i | None \<Rightarrow> 0),
                                        path := others\<rparr>)
                            else Inr (result\<lparr>baseKey := base, isNested := True,
                                        path := firstMatch # others\<rparr>))))"

section \<open>The group tree\<close>

text \<open>
  The struct \<^verbatim>\<open>keyGroup\<close> (parser.go, line 17). Every node is reached through exactly one
  map entry of its parent, so the pointer structure is a tree and a node is updated by
  writing the new node back into its parent. A nil map reads as the empty map, and the
  source allocates it before the first write.
\<close>

datatype keyGroup =
  KeyGroup (gBaseKey: string) (gValue: val) (isSimple: bool) (gIsArray: bool) (isObject: bool)
    (children: "(string \<times> keyGroup) list") (arrayData: "(int \<times> keyGroup) list")

definition newKeyGroup :: "string \<Rightarrow> keyGroup" where
  "newKeyGroup b = KeyGroup b VNil False False False [] []"

text \<open>The field assignments of the source.\<close>

fun setValue_simple :: "val \<Rightarrow> keyGroup \<Rightarrow> keyGroup" where
  "setValue_simple v (KeyGroup b _ _ a ob ch ad) = KeyGroup b v True a ob ch ad"

fun set_isArray :: "keyGroup \<Rightarrow> keyGroup" where
  "set_isArray (KeyGroup b v s _ ob ch ad) = KeyGroup b v s True ob ch ad"

fun set_isObject :: "keyGroup \<Rightarrow> keyGroup" where
  "set_isObject (KeyGroup b v s a _ ch ad) = KeyGroup b v s a True ch ad"

fun set_child :: "string \<Rightarrow> keyGroup \<Rightarrow> keyGroup \<Rightarrow> keyGroup" where
  "set_child k c (KeyGroup b v s a ob ch ad) = KeyGroup b v s a ob (AList.update k c ch) ad"

fun set_arrayItem :: "int \<Rightarrow> keyGroup \<Rightarrow> keyGroup \<Rightarrow> keyGroup" where
  "set_arrayItem i c (KeyGroup b v s a ob ch ad) = KeyGroup b v s a ob ch (AList.update i c ad)"

text \<open>The entry of a map of nodes under a key, created with the given base key when it is nil.\<close>

definition getOrCreate :: "('k \<times> keyGroup) list \<Rightarrow> 'k \<Rightarrow> string \<Rightarrow> keyGroup" where
  "getOrCreate m k b = (case map_of m k of None \<Rightarrow> newKeyGroup b | Some g \<Rightarrow> g)"

text \<open>\<^verbatim>\<open>addNestedToGroup\<close> (parser.go, line 582).\<close>

fun addNestedToGroup ::
  "(string \<Rightarrow> float64 option) \<Rightarrow> keyGroup \<Rightarrow> string list \<Rightarrow> string \<Rightarrow> keyGroup" where
  "addNestedToGroup pf grp [] v = setValue_simple (convertValueToType pf v) grp"
| "addNestedToGroup pf grp (currentKey # remainingPath) v =
     (if isNumeric currentKey
      then let index = (case Atoi currentKey of Some i \<Rightarrow> i | None \<Rightarrow> 0);
               item = set_isArray (getOrCreate (arrayData grp) index currentKey)
           in set_arrayItem index (addNestedToGroup pf item remainingPath v) grp
      else let child = getOrCreate (children grp) currentKey currentKey
           in if length remainingPath = 0
              then set_child currentKey (setValue_simple (convertValueToType pf v) child) grp
              else set_child currentKey (addNestedToGroup pf child remainingPath v) grp)"

text \<open>\<^verbatim>\<open>addToArrayGroup\<close> (parser.go, line 549) and \<^verbatim>\<open>addToObjectGroup\<close> (line 570).\<close>

definition addToArrayGroup ::
  "(string \<Rightarrow> float64 option) \<Rightarrow> keyGroup \<Rightarrow> parsedKey \<Rightarrow> string \<Rightarrow> keyGroup" where
  "addToArrayGroup pf grp parsed v =
     (let arrayItem = getOrCreate (arrayData grp) (arrayIndex parsed) (FormatInt (arrayIndex parsed))
      in if length (path parsed) = 0
         then set_arrayItem (arrayIndex parsed) (setValue_simple (VString v) arrayItem) grp
         else set_arrayItem (arrayIndex parsed) (addNestedToGroup pf arrayItem (path parsed) v) grp)"

definition addToObjectGroup ::
  "(string \<Rightarrow> float64 option) \<Rightarrow> keyGroup \<Rightarrow> parsedKey \<Rightarrow> string \<Rightarrow> keyGroup" where
  "addToObjectGroup pf grp parsed v =
     (if length (path parsed) = 0 then setValue_simple (VString v) grp
      else addNestedToGroup pf grp (path parsed) v)"

text \<open>
  \<^verbatim>\<open>groupKeysByStructure\<close> (parser.go, line 465). The corpus \<^verbatim>\<open>url.Values\<close> is the list
  of its entries in the order the \<^verbatim>\<open>range\<close> loop visits them.
\<close>

fun groupKeysLoop ::
  "(string \<Rightarrow> float64 option) \<Rightarrow> (string \<times> string list) list \<Rightarrow> (string \<times> keyGroup) list
     \<Rightarrow> error + (string \<times> keyGroup) list" where
  "groupKeysLoop pf [] groups = Inr groups"
| "groupKeysLoop pf ((key, valueSlice) # rest) groups =
     (case valueSlice of
        [] \<Rightarrow> groupKeysLoop pf rest groups
      | v # _ \<Rightarrow>
          (case parseKeyStructure key of
             Inl e \<Rightarrow> Inl e
           | Inr parsed \<Rightarrow>
               let grp = getOrCreate groups (baseKey parsed) (baseKey parsed);
                   grp' =
                     (if isArray parsed then addToArrayGroup pf (set_isArray grp) parsed v
                      else if isNested parsed then addToObjectGroup pf (set_isObject grp) parsed v
                      else setValue_simple (VString v) grp)
               in groupKeysLoop pf rest (AList.update (baseKey parsed) grp' groups)))"

definition groupKeysByStructure ::
  "(string \<Rightarrow> float64 option) \<Rightarrow> (string \<times> string list) list
     \<Rightarrow> error + (string \<times> keyGroup) list" where
  "groupKeysByStructure pf values = groupKeysLoop pf values []"

section \<open>The materializer\<close>

text \<open>
  A \<^verbatim>\<open>range\<close> loop over a map whose body may panic: the state is threaded through the
  entries and the first failure ends the loop.
\<close>

fun rangeLoop :: "('k \<times> 'v) list \<Rightarrow> ('k \<Rightarrow> 'v \<Rightarrow> 's \<Rightarrow> error + 's) \<Rightarrow> 's \<Rightarrow> error + 's" where
  "rangeLoop [] body s = Inr s"
| "rangeLoop ((k, v) # kvs) body s =
     (case body k v s of Inl e \<Rightarrow> Inl e | Inr s' \<Rightarrow> rangeLoop kvs body s')"

lemma rangeLoop_cong [fundef_cong]:
  "kvs = kvs' \<Longrightarrow> s = s' \<Longrightarrow> (\<And>k v t. (k, v) \<in> set kvs' \<Longrightarrow> body k v t = body' k v t)
     \<Longrightarrow> rangeLoop kvs body s = rangeLoop kvs' body' s'"
proof (induction kvs' arbitrary: kvs s s')
  case Nil
  then show ?case by simp
next
  case (Cons a kvs')
  then show ?case by (cases a) (auto split: sum.splits)
qed

text \<open>
  \<^verbatim>\<open>make([]interface{}, n)\<close> is \<^verbatim>\<open>runtime.makeslice\<close>, which panics with
  \<^verbatim>\<open>makeslice: len out of range\<close> when the length is negative or when the size in bytes,
  the length times the size of an element, overflows or exceeds \<^verbatim>\<open>maxAlloc\<close>. On the
  64-bit platforms, for which \<open>addInt\<close> is written, \<^verbatim>\<open>maxAlloc\<close> is \<open>2 ^ 48\<close> and an
  \<^verbatim>\<open>interface{}\<close> takes 16 bytes (\<open>interfaceSize\<close>), so the largest length that passes is
  \<open>2 ^ 44\<close>. The definition takes the product in unbounded integers: a product that
  overflows the 64-bit word also exceeds \<^verbatim>\<open>maxAlloc\<close>. A length that passes the check
  and that the machine has no memory for ends the process with a fatal error of the
  runtime, which is no panic; the model assumes the memory is there. The assignment
  \<^verbatim>\<open>result[index] = x\<close> panics outside \<open>0..len-1\<close>.
\<close>

definition maxAlloc :: int where
  "maxAlloc = 2 ^ 48"

definition interfaceSize :: int where
  "interfaceSize = 16"

definition makeSlice :: "int \<Rightarrow> error + val list" where
  "makeSlice n =
     (if n < 0 \<or> interfaceSize * n > maxAlloc then Inl (Panic MakeSliceLenOutOfRange)
      else Inr (replicate (nat n) VNil))"

definition setIndex :: "val list \<Rightarrow> int \<Rightarrow> val \<Rightarrow> error + val list" where
  "setIndex xs i v =
     (if 0 \<le> i \<and> i < int (length xs) then Inr (xs[nat i := v]) else Inl (Panic IndexOutOfRange))"

text \<open>
  The source repeats one block in \<^verbatim>\<open>buildArrayFromGroup\<close> and twice in
  \<^verbatim>\<open>buildObjectFromGroup\<close>: a simple node yields its value, a node with children or array
  data yields the array (when it has array data) or the object built from it, and any
  other node yields nothing. \<open>materialize\<close> is that block, with the two builders as
  arguments; \<open>storeAt\<close> and \<open>storeKey\<close> are the assignments that follow it.
\<close>

definition materialize ::
  "(keyGroup \<Rightarrow> error + val list) \<Rightarrow> (keyGroup \<Rightarrow> error + (string \<times> val) list) \<Rightarrow> keyGroup
     \<Rightarrow> error + val option" where
  "materialize buildArray buildObject child =
     (if isSimple child then Inr (Some (gValue child))
      else if length (children child) > 0 \<or> length (arrayData child) > 0
      then (if length (arrayData child) > 0
            then (case buildArray child of
                    Inl e \<Rightarrow> Inl e
                  | Inr arr \<Rightarrow> Inr (Some (VArray arr)))
            else (case buildObject child of
                    Inl e \<Rightarrow> Inl e
                  | Inr obj \<Rightarrow> Inr (Some (VObject obj))))
      else Inr None)"

lemma materialize_cong [fundef_cong]:
  "c = c' \<Longrightarrow> bA c' = bA' c' \<Longrightarrow> bO c' = bO' c'
     \<Longrightarrow> materialize bA bO c = materialize bA' bO' c'"
  by (simp add: materialize_def)

definition storeAt :: "int \<Rightarrow> error + val option \<Rightarrow> val list \<Rightarrow> error + val list" where
  "storeAt index r result =
     (case r of
        Inl e \<Rightarrow> Inl e
      | Inr None \<Rightarrow> Inr result
      | Inr (Some x) \<Rightarrow> setIndex result index x)"

definition storeKey ::
  "string \<Rightarrow> error + val option \<Rightarrow> (string \<times> val) list \<Rightarrow> error + (string \<times> val) list" where
  "storeKey key r result =
     (case r of
        Inl e \<Rightarrow> Inl e
      | Inr None \<Rightarrow> Inr result
      | Inr (Some x) \<Rightarrow> Inr (AList.update key x result))"

text \<open>The loop that finds the largest index, starting from 0.\<close>

definition maxIndexOf :: "(int \<times> 'v) list \<Rightarrow> int" where
  "maxIndexOf ad = fold (\<lambda>(index, _) m. if index > m then index else m) ad 0"

lemma size_keyGroup_member:
  "(k, c) \<in> set kcs \<Longrightarrow> size c < Suc (size_list (size_prod (\<lambda>_. 0) size) kcs)"
  by (induction kcs) auto

text \<open>\<^verbatim>\<open>buildArrayFromGroup\<close> (parser.go, line 666) and \<^verbatim>\<open>buildObjectFromGroup\<close> (line 700).\<close>

function (sequential) buildArrayFromGroup :: "keyGroup \<Rightarrow> error + val list"
  and buildObjectFromGroup :: "keyGroup \<Rightarrow> error + (string \<times> val) list" where
  "buildArrayFromGroup (KeyGroup b v s a ob ch ad) =
     (if length ad = 0 then Inr []
      else
        case makeSlice (addInt (maxIndexOf ad) 1) of
          Inl e \<Rightarrow> Inl e
        | Inr result \<Rightarrow>
            rangeLoop ad (\<lambda>index arrayItem result.
              storeAt index (materialize buildArrayFromGroup buildObjectFromGroup arrayItem) result)
              result)"
| "buildObjectFromGroup (KeyGroup b v s a ob ch ad) =
     (case rangeLoop ch (\<lambda>key child result.
              storeKey key (materialize buildArrayFromGroup buildObjectFromGroup child) result)
            (if s then [(''value'', v)] else []) of
        Inl e \<Rightarrow> Inl e
      | Inr result \<Rightarrow>
          rangeLoop ad (\<lambda>key child result.
            storeKey (FormatInt key)
              (materialize buildArrayFromGroup buildObjectFromGroup child) result)
            result)"
  by pat_completeness auto
termination
  by (relation "measure (case_sum size size)") (auto dest: size_keyGroup_member)

declare buildArrayFromGroup.simps [simp del] buildObjectFromGroup.simps [simp del]

text \<open>\<^verbatim>\<open>parseFormFlexibly\<close> (parser.go, line 441).\<close>

definition parseFormFlexibly ::
  "(string \<Rightarrow> float64 option) \<Rightarrow> (string \<times> string list) list \<Rightarrow> error + (string \<times> val) list" where
  "parseFormFlexibly pf values =
     (case groupKeysByStructure pf values of
        Inl e \<Rightarrow> Inl e
      | Inr keyGroups \<Rightarrow>
          rangeLoop keyGroups (\<lambda>baseKey grp result.
            if isSimple grp then Inr (AList.update baseKey (gValue grp) result)
            else if gIsArray grp
            then (case buildArrayFromGroup grp of
                    Inl e \<Rightarrow> Inl e
                  | Inr arr \<Rightarrow> Inr (AList.update baseKey (VArray arr) result))
            else (case buildObjectFromGroup grp of
                    Inl e \<Rightarrow> Inl e
                  | Inr obj \<Rightarrow> Inr (AList.update baseKey (VObject obj) result))) [])"

section \<open>The struct binder\<close>

subsection \<open>More of the strings package\<close>

text \<open>
  \<^verbatim>\<open>strings.HasSuffix\<close>, \<^verbatim>\<open>strings.TrimSuffix\<close>, \<^verbatim>\<open>strings.Split\<close> for a separator of one
  byte (the source splits on \<^verbatim>\<open>"["\<close> and on the line feed) and \<^verbatim>\<open>strings.Join\<close>.
\<close>

definition HasSuffix :: "string \<Rightarrow> string \<Rightarrow> bool" where
  "HasSuffix s suf = (length suf \<le> length s \<and> drop (length s - length suf) s = suf)"

definition TrimSuffix :: "string \<Rightarrow> string \<Rightarrow> string" where
  "TrimSuffix s suf = (if HasSuffix s suf then take (length s - length suf) s else s)"

fun Split :: "string \<Rightarrow> char \<Rightarrow> string list" where
  "Split [] sep = [[]]"
| "Split (x # xs) sep =
     (if x = sep then [] # Split xs sep
      else case Split xs sep of p # ps \<Rightarrow> (x # p) # ps | [] \<Rightarrow> [[x]])"

fun Join :: "string list \<Rightarrow> string \<Rightarrow> string" where
  "Join [] sep = []"
| "Join [p] sep = p"
| "Join (p # q # ps) sep = p @ sep @ Join (q # ps) sep"

subsection \<open>Destination types and values\<close>

text \<open>
  What the binder sees of a destination through \<^verbatim>\<open>reflect\<close>: the kind of a type (the
  signed and unsigned integer kinds with their width in bits, \<^verbatim>\<open>float64\<close>, and \<open>TOther\<close>
  for every kind the \<^verbatim>\<open>switch\<close> statements do not list), and for a struct its fields with
  name, \<^verbatim>\<open>form\<close> tag and whether the field can be set (it is exported). A value of a
  \<^verbatim>\<open>float32\<close> field would also be rounded on assignment; that kind is not modelled. \<open>GNil\<close>
  is the nil slice, the nil map and the zero value of the kinds that are not modelled.
\<close>

datatype gotype =
    TString
  | TInt nat
  | TUint nat
  | TFloat64
  | TBool
  | TStruct "structField list"
  | TSlice gotype
  | TMap gotype gotype
  | TOther
and structField =
  StructField (fieldName: string) (formTag: string) (exported: bool) (fieldType: gotype)

datatype govalue =
    GNil
  | GString string
  | GInt int
  | GUint int
  | GFloat float64
  | GBool bool
  | GStruct "govalue list"
  | GSlice "govalue list"
  | GMap "(govalue \<times> govalue) list"

fun zeroValue :: "gotype \<Rightarrow> govalue"
  and zeroFields :: "structField list \<Rightarrow> govalue list" where
  "zeroValue TString = GString []"
| "zeroValue (TInt _) = GInt 0"
| "zeroValue (TUint _) = GUint 0"
| "zeroValue TFloat64 = GFloat 0"
| "zeroValue TBool = GBool False"
| "zeroValue (TStruct fs) = GStruct (zeroFields fs)"
| "zeroValue (TSlice _) = GNil"
| "zeroValue (TMap _ _) = GNil"
| "zeroValue TOther = GNil"
| "zeroFields [] = []"
| "zeroFields (StructField name tag ex ty # fs) = zeroValue ty # zeroFields fs"

text \<open>
  An assignment through \<^verbatim>\<open>reflect\<close> (\<^verbatim>\<open>SetString\<close>, \<^verbatim>\<open>SetInt\<close>, \<^verbatim>\<open>Set\<close>, ...) panics on a
  value that cannot be set. \<^verbatim>\<open>SetInt\<close> and \<^verbatim>\<open>SetUint\<close> truncate to the width of the kind.
\<close>

definition setField :: "bool \<Rightarrow> govalue \<Rightarrow> error + govalue" where
  "setField canSet x = (if canSet then Inr x else Inl (Panic SetUnexportedField))"

text \<open>
  \<^verbatim>\<open>setValue\<close> (parser.go, line 339). The second component of the result is the
  \<^verbatim>\<open>error\<close> that the Go function returns (\<open>None\<close> for nil).
\<close>

fun setValue ::
  "(string \<Rightarrow> float64 option) \<Rightarrow> bool \<Rightarrow> gotype \<Rightarrow> govalue \<Rightarrow> string
     \<Rightarrow> error + (govalue \<times> string option)" where
  "setValue pf canSet TString cur s =
     (case setField canSet (GString s) of Inl e \<Rightarrow> Inl e | Inr x \<Rightarrow> Inr (x, None))"
| "setValue pf canSet (TInt bits) cur s =
     (case ParseInt s 64 of
        Some intVal \<Rightarrow>
          (case setField canSet (GInt (signed_take_bit (bits - 1) intVal)) of
             Inl e \<Rightarrow> Inl e | Inr x \<Rightarrow> Inr (x, None))
      | None \<Rightarrow> Inr (cur, None))"
| "setValue pf canSet (TUint bits) cur s =
     (case ParseUint s 64 of
        Some uintVal \<Rightarrow>
          (case setField canSet (GUint (take_bit bits uintVal)) of
             Inl e \<Rightarrow> Inl e | Inr x \<Rightarrow> Inr (x, None))
      | None \<Rightarrow> Inr (cur, None))"
| "setValue pf canSet TFloat64 cur s =
     (case pf s of
        Some floatVal \<Rightarrow>
          (case setField canSet (GFloat floatVal) of Inl e \<Rightarrow> Inl e | Inr x \<Rightarrow> Inr (x, None))
      | None \<Rightarrow> Inr (cur, None))"
| "setValue pf canSet TBool cur s =
     (case ParseBool s of
        Some boolVal \<Rightarrow>
          (case setField canSet (GBool boolVal) of Inl e \<Rightarrow> Inl e | Inr x \<Rightarrow> Inr (x, None))
      | None \<Rightarrow> Inr (cur, None))"
| "setValue pf canSet _ cur s = Inr (cur, None)"

text \<open>The name under which a field is looked up: its \<^verbatim>\<open>form\<close> tag, or its own name.\<close>

definition tagOrName :: "structField \<Rightarrow> string" where
  "tagOrName f = (if formTag f \<noteq> [] then formTag f else fieldName f)"

text \<open>
  \<^verbatim>\<open>parseStructFromMap\<close> (parser.go, line 195), on the fields of a struct type and their
  current values.
\<close>

fun parseStructFromMap ::
  "(string \<Rightarrow> float64 option) \<Rightarrow> (string \<times> string) list \<Rightarrow> structField list \<Rightarrow> govalue list
     \<Rightarrow> error + govalue list" where
  "parseStructFromMap pf fieldData (f # fs) (cur # curs) =
     (case (case map_of fieldData (tagOrName f) of
              Some v \<Rightarrow>
                (case setValue pf (exported f) (fieldType f) cur v of
                   Inl e \<Rightarrow> Inl e
                 | Inr (x, err) \<Rightarrow> Inr x)
            | None \<Rightarrow> Inr cur) of
        Inl e \<Rightarrow> Inl e
      | Inr x \<Rightarrow>
          (case parseStructFromMap pf fieldData fs curs of
             Inl e \<Rightarrow> Inl e
           | Inr xs \<Rightarrow> Inr (x # xs)))"
| "parseStructFromMap pf fieldData _ curs = Inr curs"

text \<open>
  \<^verbatim>\<open>parseSlice\<close> (parser.go, line 221). \<open>indexKey\<close> is the body of its first loop, which
  groups the field data by index, and \<open>setElem\<close> the \<^verbatim>\<open>switch\<close> on the element kind.
  \<^verbatim>\<open>reflect.MakeSlice\<close> panics for a negative length and \<^verbatim>\<open>Value.Index\<close> for a negative
  index. The size in bytes of an element of the destination, and with it the length from
  which the runtime refuses the allocation, is not part of \<open>gotype\<close>: the model of the
  binder assumes that the slice can be allocated.
\<close>

definition indexKey ::
  "(int \<times> (string \<times> string) list) list \<Rightarrow> string \<times> string \<Rightarrow> (int \<times> (string \<times> string) list) list" where
  "indexKey indexedData kv =
     (case kv of (key, v) \<Rightarrow>
        if Contains key ''['' \<and> Contains key '']''
        then let parts = Split key CHR ''[''
             in if length parts \<ge> 2
                then let indexStr = TrimSuffix (parts ! 1) '']''
                     in case Atoi indexStr of
                          Some index \<Rightarrow>
                            let inner = (case map_of indexedData index of None \<Rightarrow> [] | Some m \<Rightarrow> m);
                                nestedKey = Join (drop 2 parts) ''[''
                            in if nestedKey \<noteq> []
                               then AList.update index (AList.update nestedKey v inner) indexedData
                               else AList.update index (AList.update ''value'' v inner) indexedData
                        | None \<Rightarrow> indexedData
                else indexedData
        else indexedData)"

definition setElem ::
  "(string \<Rightarrow> float64 option) \<Rightarrow> gotype \<Rightarrow> (string \<times> string) list \<Rightarrow> govalue \<Rightarrow> error + govalue" where
  "setElem pf elemType data elem =
     (case elemType of
        TStruct fs \<Rightarrow>
          (case parseStructFromMap pf data fs (zeroFields fs) of
             Inl e \<Rightarrow> Inl e
           | Inr xs \<Rightarrow> Inr (GStruct xs))
      | TString \<Rightarrow> (case map_of data ''value'' of Some v \<Rightarrow> Inr (GString v) | None \<Rightarrow> Inr elem)
      | TInt bits \<Rightarrow>
          (case map_of data ''value'' of
             Some v \<Rightarrow>
               (case ParseInt v 64 of
                  Some intVal \<Rightarrow> Inr (GInt (signed_take_bit (bits - 1) intVal))
                | None \<Rightarrow> Inr elem)
           | None \<Rightarrow> Inr elem)
      | _ \<Rightarrow> Inr elem)"

definition parseSlice ::
  "(string \<Rightarrow> float64 option) \<Rightarrow> bool \<Rightarrow> gotype \<Rightarrow> govalue \<Rightarrow> (string \<times> string) list
     \<Rightarrow> error + govalue" where
  "parseSlice pf canSet elemType cur fieldData =
     (let indexedData = foldl indexKey [] fieldData
      in if length indexedData > 0
         then let n = addInt (maxIndexOf indexedData) 1
              in if n < 0 then Inl (Panic MakeSliceLenOutOfRange)
                 else
                   (case rangeLoop indexedData (\<lambda>index data sliceVal.
                            if index < int (length sliceVal)
                            then if index < 0 then Inl (Panic IndexOutOfRange)
                                 else (case setElem pf elemType data (sliceVal ! nat index) of
                                         Inl e \<Rightarrow> Inl e
                                       | Inr x \<Rightarrow> Inr (sliceVal[nat index := x]))
                            else Inr sliceVal)
                          (replicate (nat n) (zeroValue elemType)) of
                      Inl e \<Rightarrow> Inl e
                    | Inr sliceVal \<Rightarrow> setField canSet (GSlice sliceVal))
         else Inr cur)"

text \<open>
  \<^verbatim>\<open>parseMap\<close> (parser.go, line 296). \<open>mapKeyOf\<close> is the body of its first loop; the slice
  \<^verbatim>\<open>key[len(fieldName)+1 : len(key)-1]\<close> is within bounds whenever the prefix and suffix
  tests hold.
\<close>

definition mapKeyOf :: "string \<Rightarrow> (string \<times> string) list \<Rightarrow> string \<times> string \<Rightarrow> (string \<times> string) list" where
  "mapKeyOf fName mapData kv =
     (case kv of (key, v) \<Rightarrow>
        if HasPrefix key (fName @ ''['') \<and> HasSuffix key '']''
        then AList.update (take (length key - 1 - (length fName + 1)) (drop (length fName + 1) key)) v mapData
        else mapData)"

definition parseMap ::
  "(string \<Rightarrow> float64 option) \<Rightarrow> bool \<Rightarrow> gotype \<Rightarrow> gotype \<Rightarrow> govalue \<Rightarrow> (string \<times> string) list
     \<Rightarrow> string \<Rightarrow> error + govalue" where
  "parseMap pf canSet keyType elemType cur fieldData fName =
     (let mapData = foldl (mapKeyOf fName) [] fieldData
      in if length mapData > 0
         then (case rangeLoop mapData (\<lambda>keyStr valueStr newMap.
                       case setValue pf True keyType (zeroValue keyType) keyStr of
                         Inl e \<Rightarrow> Inl e
                       | Inr (keyValue, Some err) \<Rightarrow> Inr newMap
                       | Inr (keyValue, None) \<Rightarrow>
                           (case setValue pf True elemType (zeroValue elemType) valueStr of
                              Inl e \<Rightarrow> Inl e
                            | Inr (elemValue, Some err) \<Rightarrow> Inr newMap
                            | Inr (elemValue, None) \<Rightarrow> Inr (AList.update keyValue elemValue newMap)))
                     [] of
                 Inl e \<Rightarrow> Inl e
               | Inr newMap \<Rightarrow> setField canSet (GMap newMap))
         else Inr cur)"

text \<open>
  \<^verbatim>\<open>parseFieldValue\<close> (parser.go, line 130). For the scalar kinds the source ranges over
  the field data and returns at the first value that parses: \<open>firstParsed\<close>. The
  \<^verbatim>\<open>error\<close> it returns is nil on every path, so is that of \<^verbatim>\<open>parseSlice\<close>,
  \<^verbatim>\<open>parseMap\<close> and \<^verbatim>\<open>parseStructFromMap\<close>.
\<close>

fun firstParsed :: "(string \<Rightarrow> 'a option) \<Rightarrow> (string \<times> string) list \<Rightarrow> 'a option" where
  "firstParsed parse [] = None"
| "firstParsed parse ((k, v) # kvs) =
     (case parse v of Some x \<Rightarrow> Some x | None \<Rightarrow> firstParsed parse kvs)"

definition parseFieldValue ::
  "(string \<Rightarrow> float64 option) \<Rightarrow> structField \<Rightarrow> govalue \<Rightarrow> (string \<times> string) list \<Rightarrow> string
     \<Rightarrow> error + govalue" where
  "parseFieldValue pf f cur fieldData fName =
     (case fieldType f of
        TString \<Rightarrow>
          (case firstParsed Some fieldData of
             Some v \<Rightarrow> setField (exported f) (GString v)
           | None \<Rightarrow> Inr cur)
      | TInt bits \<Rightarrow>
          (case firstParsed (\<lambda>v. ParseInt v 64) fieldData of
             Some intVal \<Rightarrow> setField (exported f) (GInt (signed_take_bit (bits - 1) intVal))
           | None \<Rightarrow> Inr cur)
      | TUint bits \<Rightarrow>
          (case firstParsed (\<lambda>v. ParseUint v 64) fieldData of
             Some uintVal \<Rightarrow> setField (exported f) (GUint (take_bit bits uintVal))
           | None \<Rightarrow> Inr cur)
      | TFloat64 \<Rightarrow>
          (case firstParsed pf fieldData of
             Some floatVal \<Rightarrow> setField (exported f) (GFloat floatVal)
           | None \<Rightarrow> Inr cur)
      | TBool \<Rightarrow>
          (case firstParsed ParseBool fieldData of
             Some boolVal \<Rightarrow> setField (exported f) (GBool boolVal)
           | None \<Rightarrow> Inr cur)
      | TStruct fs \<Rightarrow>
          if exported f
          then (case parseStructFromMap pf fieldData fs (zeroFields fs) of
                  Inl e \<Rightarrow> Inl e
                | Inr xs \<Rightarrow> Inr (GStruct xs))
          else Inr cur
      | TSlice elemType \<Rightarrow> parseSlice pf (exported f) elemType cur fieldData
      | TMap keyType elemType \<Rightarrow> parseMap pf (exported f) keyType elemType cur fieldData fName
      | TOther \<Rightarrow> Inr cur)"

text \<open>
  \<^verbatim>\<open>findFieldData\<close> (parser.go, line 104); \<open>findEntry\<close> is the body of its loop. The
  result is nil (\<open>None\<close>) when nothing matched.
\<close>

definition findEntry :: "string \<Rightarrow> (string \<times> string) list \<Rightarrow> string \<times> string list \<Rightarrow> (string \<times> string) list" where
  "findEntry fName result kv =
     (case kv of (key, valueSlice) \<Rightarrow>
        (case valueSlice of
           [] \<Rightarrow> result
         | v # _ \<Rightarrow>
             if key = fName then AList.update key v result
             else if HasPrefix key (fName @ ''['')
             then AList.update (drop (length fName + 1) key) v result
             else result))"

definition findFieldData :: "(string \<times> string list) list \<Rightarrow> string \<Rightarrow> (string \<times> string) list option" where
  "findFieldData values fName =
     (let result = foldl (findEntry fName) [] values
      in if length result = 0 then None else Some result)"

text \<open>\<^verbatim>\<open>parseStruct\<close> (parser.go, line 74).\<close>

fun parseStruct ::
  "(string \<Rightarrow> float64 option) \<Rightarrow> (string \<times> string list) list \<Rightarrow> structField list \<Rightarrow> govalue list
     \<Rightarrow> error + govalue list" where
  "parseStruct pf values (f # fs) (cur # curs) =
     (case (case findFieldData values (tagOrName f) of
              None \<Rightarrow> Inr cur
            | Some fieldData \<Rightarrow> parseFieldValue pf f cur fieldData (tagOrName f)) of
        Inl e \<Rightarrow> Inl e
      | Inr x \<Rightarrow>
          (case parseStruct pf values fs curs of
             Inl e \<Rightarrow> Inl e
           | Inr xs \<Rightarrow> Inr (x # xs)))"
| "parseStruct pf values _ curs = Inr curs"

section \<open>The entry points\<close>

text \<open>
  \<^verbatim>\<open>strings.ReplaceAll\<close> for a non-empty pattern, and \<^verbatim>\<open>unescapeUnicode\<close> (parser.go,
  line 816). The source ranges over a map of seven replacements; no replacement can create
  or destroy an occurrence of another pattern, so the order does not matter.
\<close>

function ReplaceAll :: "string \<Rightarrow> string \<Rightarrow> string \<Rightarrow> string" where
  "ReplaceAll [] old new = []"
| "ReplaceAll (c # cs) old new =
     (if old \<noteq> [] \<and> HasPrefix (c # cs) old
      then new @ ReplaceAll (drop (length old) (c # cs)) old new
      else c # ReplaceAll cs old new)"
  by pat_completeness auto
termination
  by (relation "measure (\<lambda>(s, old, new). length s)") auto

definition unescapeUnicode :: "string \<Rightarrow> string" where
  "unescapeUnicode data =
     fold (\<lambda>(escaped, unescaped) result. ReplaceAll result escaped unescaped)
       [([CHR 0x5C] @ ''u0026'', ''&''),
        ([CHR 0x5C] @ ''u0027'', [CHR 0x27]),
        ([CHR 0x5C] @ ''u0022'', [CHR 0x22]),
        ([CHR 0x5C] @ ''u003C'', ''<''),
        ([CHR 0x5C] @ ''u003E'', ''>''),
        ([CHR 0x5C] @ ''u002B'', ''+''),
        ([CHR 0x5C] @ ''u0020'', '' '')]
       data"

text \<open>
  \<^verbatim>\<open>url.QueryUnescape\<close> and \<^verbatim>\<open>url.ParseQuery\<close> of the Go standard library (Go 1.21, which
  the repository requires): a percent sign must be followed by two hexadecimal digits, a
  plus sign is a space; the query is cut at every \<^verbatim>\<open>&\<close>, a piece holding a semicolon is an
  error, an empty piece is skipped, and a piece is cut at its first \<^verbatim>\<open>=\<close>. The values of
  a repeated key are collected in order. \<^verbatim>\<open>ParseQuery\<close> yields a map; the list lists its
  keys in the order of their first occurrence.
\<close>

definition ishex :: "char \<Rightarrow> bool" where
  "ishex c = (c \<in> set ''0123456789abcdefABCDEF'')"

definition unhex :: "char \<Rightarrow> nat" where
  "unhex c =
     (if c \<in> set ''0123456789'' then of_char c - 48
      else if c \<in> set ''abcdef'' then of_char c - 97 + 10
      else if c \<in> set ''ABCDEF'' then of_char c - 65 + 10
      else 0)"

fun QueryUnescape :: "string \<Rightarrow> string option" where
  "QueryUnescape [] = Some []"
| "QueryUnescape (c # cs) =
     (if c = CHR ''%''
      then (case cs of
              h1 # h2 # rest \<Rightarrow>
                if ishex h1 \<and> ishex h2
                then map_option ((#) (char_of (unhex h1 * 16 + unhex h2))) (QueryUnescape rest)
                else None
            | _ \<Rightarrow> None)
      else if c = CHR ''+'' then map_option ((#) CHR '' '') (QueryUnescape cs)
      else map_option ((#) c) (QueryUnescape cs))"

definition Cut :: "string \<Rightarrow> char \<Rightarrow> string \<times> string" where
  "Cut s sep = (takeWhile (\<lambda>c. c \<noteq> sep) s, drop 1 (dropWhile (\<lambda>c. c \<noteq> sep) s))"

fun parseQueryLoop ::
  "string list \<Rightarrow> (string \<times> string list) list \<Rightarrow> bool \<Rightarrow> (string \<times> string list) list \<times> bool" where
  "parseQueryLoop [] m err = (m, err)"
| "parseQueryLoop (piece # pieces) m err =
     (if Contains piece '';'' then parseQueryLoop pieces m True
      else if piece = [] then parseQueryLoop pieces m err
      else case Cut piece CHR ''='' of (rawKey, rawValue) \<Rightarrow>
        (case QueryUnescape rawKey of
           None \<Rightarrow> parseQueryLoop pieces m True
         | Some key \<Rightarrow>
             (case QueryUnescape rawValue of
                None \<Rightarrow> parseQueryLoop pieces m True
              | Some v \<Rightarrow>
                  parseQueryLoop pieces
                    (AList.update key ((case map_of m key of None \<Rightarrow> [] | Some vs \<Rightarrow> vs) @ [v]) m)
                    err)))"

definition ParseQuery :: "string \<Rightarrow> error + (string \<times> string list) list" where
  "ParseQuery query =
     (case parseQueryLoop (Split query CHR ''&'') [] False of
        (m, err) \<Rightarrow> if err then Inl ParseQueryError else Inr m)"

text \<open>
  \<^verbatim>\<open>strings.TrimSpace\<close>: the white space of Unicode, in its UTF-8 encoding, is removed
  from both ends. \<^verbatim>\<open>strings.SplitN(s, sep, 2)\<close> cuts at the first occurrence of the
  separator.
\<close>

definition spaces :: "string list" where
  "spaces =
     [[CHR 0x09], [CHR 0x0A], [CHR 0x0B], [CHR 0x0C], [CHR 0x0D], [CHR 0x20],
      [CHR 0xC2, CHR 0x85], [CHR 0xC2, CHR 0xA0], [CHR 0xE1, CHR 0x9A, CHR 0x80],
      [CHR 0xE2, CHR 0x80, CHR 0x80], [CHR 0xE2, CHR 0x80, CHR 0x81], [CHR 0xE2, CHR 0x80, CHR 0x82],
      [CHR 0xE2, CHR 0x80, CHR 0x83], [CHR 0xE2, CHR 0x80, CHR 0x84], [CHR 0xE2, CHR 0x80, CHR 0x85],
      [CHR 0xE2, CHR 0x80, CHR 0x86], [CHR 0xE2, CHR 0x80, CHR 0x87], [CHR 0xE2, CHR 0x80, CHR 0x88],
      [CHR 0xE2, CHR 0x80, CHR 0x89], [CHR 0xE2, CHR 0x80, CHR 0x8A], [CHR 0xE2, CHR 0x80, CHR 0xA8],
      [CHR 0xE2, CHR 0x80, CHR 0xA9], [CHR 0xE2, CHR 0x80, CHR 0xAF], [CHR 0xE2, CHR 0x81, CHR 0x9F],
      [CHR 0xE3, CHR 0x80, CHR 0x80]]"

function trimLeft :: "string \<Rightarrow> string" where
  "trimLeft s =
     (case find (\<lambda>w. HasPrefix s w) spaces of
        Some w \<Rightarrow> if 0 < length w \<and> length w \<le> length s then trimLeft (drop (length w) s) else s
      | None \<Rightarrow> s)"
  by pat_completeness auto
termination
proof (relation "measure length")
  fix s w :: string
  assume "0 < length w \<and> length w \<le> length s"
  then show "(drop (length w) s, s) \<in> measure length"
    by (cases w; cases s) auto
qed simp

declare trimLeft.simps [simp del]

function trimRight :: "string \<Rightarrow> string" where
  "trimRight s =
     (case find (\<lambda>w. HasSuffix s w) spaces of
        Some w \<Rightarrow> if 0 < length w \<and> length w \<le> length s then trimRight (take (length s - length w) s) else s
      | None \<Rightarrow> s)"
  by pat_completeness auto
termination
proof (relation "measure length")
  fix s w :: string
  assume "0 < length w \<and> length w \<le> length s"
  then show "(take (length s - length w) s, s) \<in> measure length"
    by (cases w; cases s) auto
qed simp

declare trimRight.simps [simp del]

definition TrimSpace :: "string \<Rightarrow> string" where
  "TrimSpace s = trimRight (trimLeft s)"

definition SplitN2 :: "string \<Rightarrow> string \<Rightarrow> string list" where
  "SplitN2 s sep =
     (let i = Index s sep
      in if i < 0 then [s] else [take (nat i) s, drop (nat i + length sep) s])"

text \<open>
  \<^verbatim>\<open>convertMultiLineToForm\<close> (parser.go, line 765), with the body of its loop as
  \<open>convertLine\<close>, and \<^verbatim>\<open>normalizeFormData\<close> (line 837).
\<close>

definition convertLine :: "string list \<Rightarrow> string \<Rightarrow> string list" where
  "convertLine formParts line0 =
     (let line = TrimSpace line0
      in if line = [] then formParts
         else case SplitN2 line '' = '' of
                [p0, p1] \<Rightarrow> formParts @ [TrimSpace p0 @ ''='' @ TrimSpace p1]
              | _ \<Rightarrow> formParts)"

definition convertMultiLineToForm :: "string \<Rightarrow> string" where
  "convertMultiLineToForm multiLineData =
     Join (foldl convertLine [] (Split multiLineData (CHR 0x0A))) ''&''"

definition normalizeFormData :: "string \<Rightarrow> string" where
  "normalizeFormData data =
     (if Contains data [CHR 0x0A] \<and> Contains data '' = '' then convertMultiLineToForm data
      else if Contains data ''&'' then data
      else data)"

text \<open>
  \<^verbatim>\<open>FormToMap\<close> (parser.go, line 423), \<^verbatim>\<open>FormToJSON\<close> (line 398), \<^verbatim>\<open>FormToJSONEncoded\<close>
  (line 747), \<^verbatim>\<open>FormToMapEncoded\<close> (line 796) and \<^verbatim>\<open>ParseForm\<close> (line 42).
  \<^verbatim>\<open>json.MarshalIndent\<close> is the parameter \<open>marshal\<close> (\<open>None\<close> for an error). The target
  of \<^verbatim>\<open>ParseForm\<close> is a pointer to a struct, given by its fields and their values.
\<close>

definition FormToMap :: "(string \<Rightarrow> float64 option) \<Rightarrow> string \<Rightarrow> error + (string \<times> val) list" where
  "FormToMap pf formData =
     (case ParseQuery formData of
        Inl e \<Rightarrow> Inl e
      | Inr values \<Rightarrow> parseFormFlexibly pf values)"

definition FormToJSON ::
  "((string \<times> val) list \<Rightarrow> string option) \<Rightarrow> (string \<Rightarrow> float64 option) \<Rightarrow> string \<Rightarrow> error + string" where
  "FormToJSON marshal pf formData =
     (case ParseQuery formData of
        Inl e \<Rightarrow> Inl e
      | Inr values \<Rightarrow>
          (case parseFormFlexibly pf values of
             Inl e \<Rightarrow> Inl e
           | Inr result \<Rightarrow>
               (case marshal result of
                  None \<Rightarrow> Inl MarshalError
                | Some jsonData \<Rightarrow> Inr jsonData)))"

definition FormToJSONEncoded ::
  "((string \<times> val) list \<Rightarrow> string option) \<Rightarrow> (string \<Rightarrow> float64 option) \<Rightarrow> string \<Rightarrow> error + string" where
  "FormToJSONEncoded marshal pf encodedData =
     (case QueryUnescape (unescapeUnicode encodedData) of
        None \<Rightarrow> Inl QueryUnescapeError
      | Some decodedData \<Rightarrow> FormToJSON marshal pf (normalizeFormData decodedData))"

definition FormToMapEncoded :: "(string \<Rightarrow> float64 option) \<Rightarrow> string \<Rightarrow> error + (string \<times> val) list" where
  "FormToMapEncoded pf encodedData =
     (case QueryUnescape (unescapeUnicode encodedData) of
        None \<Rightarrow> Inl QueryUnescapeError
      | Some decodedData \<Rightarrow> FormToMap pf decodedData)"

definition ParseForm ::
  "(string \<Rightarrow> float64 option) \<Rightarrow> string \<Rightarrow> structField list \<Rightarrow> govalue list \<Rightarrow> error + govalue list" where
  "ParseForm pf formData fs target =
     (case ParseQuery formData of
        Inl e \<Rightarrow> Inl e
      | Inr values \<Rightarrow> parseStruct pf values fs target)"

text \<open>A corpus reduced to the first value of every key.\<close>

definition firstValues :: "(string \<times> string list) list \<Rightarrow> (string \<times> string list) list" where
  "firstValues values = map (\<lambda>(k, vs). (k, take 1 vs)) values"

section \<open>Signed decimal numerals\<close>




section \<open>Notions used to state the properties of the generic path\<close>





definition emit ::
  "string \<Rightarrow> keyGroup \<Rightarrow> (string \<times> val) list \<Rightarrow> error + (string \<times> val) list" where
  "emit bk grp result =
     (if isSimple grp then Inr (AList.update bk (gValue grp) result)
      else if gIsArray grp
      then (case buildArrayFromGroup grp of
              Inl e \<Rightarrow> Inl e
            | Inr arr \<Rightarrow> Inr (AList.update bk (VArray arr) result))
      else (case buildObjectFromGroup grp of
              Inl e \<Rightarrow> Inl e
            | Inr obj \<Rightarrow> Inr (AList.update bk (VObject obj) result)))"

text \<open>
  \<open>indicesInRange g\<close>: every array index in the tree below \<open>g\<close> lies between 0 and
  \<open>2 ^ 44 - 1\<close>, so that it addresses a slot and the length \<^verbatim>\<open>maxIndex+1\<close> is at most
  \<open>2 ^ 44\<close>, the largest length that \<open>makeSlice\<close> accepts.
\<close>

fun indicesInRange :: "keyGroup \<Rightarrow> bool" where
  "indicesInRange (KeyGroup b v s a ob ch ad) =
     (list_all (\<lambda>(i, c). 0 \<le> i \<and> i < 2 ^ 44 \<and> indicesInRange c) ad
      \<and> list_all (\<lambda>(k, c). indicesInRange c) ch)"

text \<open>
  Notions for the array materializer, on the corpus: \<open>keyInRange key\<close> says that the
  key parses without failure and that each of its index segments lies between 0 and
  \<open>2 ^ 44 - 1\<close>, and \<open>corpusInRange\<close> says so of every key that has a value;
  \<open>indicesUnder k corpus\<close> lists the leading indices of the entries under
  the base key \<open>k\<close>; \<open>onlyIndexedUnder k corpus\<close> says that every entry under \<open>k\<close>
  starts with an index segment. On the tree: \<open>groupsInRange\<close> lifts \<open>indicesInRange\<close> to
  a map of roots, and \<open>arrayNodeAt k S groups\<close> says that the root of \<open>k\<close>, if any, is an
  array node without scalar whose indices are the set \<open>S\<close>.
\<close>

definition pathInRange :: "string list \<Rightarrow> bool" where
  "pathInRange p =
     list_all (\<lambda>s. case Atoi s of None \<Rightarrow> True | Some i \<Rightarrow> 0 \<le> i \<and> i < 2 ^ 44) p"

definition keyInRange :: "string \<Rightarrow> bool" where
  "keyInRange key =
     (case parseKeyStructure key of
        Inl _ \<Rightarrow> False
      | Inr p \<Rightarrow> (isArray p \<longrightarrow> 0 \<le> arrayIndex p \<and> arrayIndex p < 2 ^ 44) \<and> pathInRange (path p))"

definition corpusInRange :: "(string \<times> string list) list \<Rightarrow> bool" where
  "corpusInRange corpus = (\<forall>(key, vs) \<in> set corpus. vs \<noteq> [] \<longrightarrow> keyInRange key)"

definition indicesUnder :: "string \<Rightarrow> (string \<times> string list) list \<Rightarrow> int list" where
  "indicesUnder k corpus =
     concat (map (\<lambda>(key, vs).
       if vs = [] then []
       else case parseKeyStructure key of
              Inl _ \<Rightarrow> []
            | Inr p \<Rightarrow> if baseKey p = k \<and> isArray p then [arrayIndex p] else []) corpus)"

definition onlyIndexedUnder :: "string \<Rightarrow> (string \<times> string list) list \<Rightarrow> bool" where
  "onlyIndexedUnder k corpus =
     (\<forall>(key, vs) \<in> set corpus. vs \<noteq> [] \<longrightarrow>
        (case parseKeyStructure key of
           Inl _ \<Rightarrow> True
         | Inr p \<Rightarrow> baseKey p = k \<longrightarrow> isArray p))"

definition groupsInRange :: "(string \<times> keyGroup) list \<Rightarrow> bool" where
  "groupsInRange groups = list_all (\<lambda>(k, g). indicesInRange g) groups"

definition arrayNodeAt :: "string \<Rightarrow> int set \<Rightarrow> (string \<times> keyGroup) list \<Rightarrow> bool" where
  "arrayNodeAt k S groups =
     (case map_of groups k of
        None \<Rightarrow> S = {}
      | Some g \<Rightarrow> \<not> isSimple g \<and> gIsArray g \<and> S \<noteq> {} \<and> fst ` set (arrayData g) = S
                 \<and> distinct (map fst (arrayData g)))"

section \<open>Properties of the leaf coercion\<close>

lemma Atoi_0: "Atoi ''0'' = Some 0"
  by (simp add: Atoi_def ParseInt_def ParseUint_def isDigit_def digitVal_def)

lemma Atoi_1: "Atoi ''1'' = Some 1"
  by (simp add: Atoi_def ParseInt_def ParseUint_def isDigit_def digitVal_def)

lemma Atoi_123: "Atoi ''123'' = Some 123"
  by (simp add: Atoi_def ParseInt_def ParseUint_def isDigit_def digitVal_def)

lemma Atoi_1_5: "Atoi ''1.5'' = None"
  by (simp add: Atoi_def ParseInt_def ParseUint_def isDigit_def digitVal_def)

lemma Atoi_true: "Atoi ''true'' = None"
  by (simp add: Atoi_def ParseInt_def ParseUint_def isDigit_def digitVal_def)

text \<open>
  C4. The coercion tries integer, then float, then boolean, and otherwise keeps the
  string; the first success decides (the second integer attempt of the source can never
  succeed where the first failed). So \<open>''0''\<close>, \<open>''1''\<close> and \<open>''123''\<close> become the
  integers 0, 1 and 123 whatever the float and boolean parsers would say, \<open>''1.5''\<close>
  becomes the float that \<^verbatim>\<open>ParseFloat\<close> reads, and \<open>''true''\<close>, which \<^verbatim>\<open>ParseFloat\<close>
  rejects, becomes the boolean true.
\<close>

theorem convertValueToType_priority:
  "convertValueToType pf s =
     (case Atoi s of
        Some i \<Rightarrow> VInt i
      | None \<Rightarrow> (case pf s of
                   Some x \<Rightarrow> VFloat x
                 | None \<Rightarrow> (case ParseBool s of Some b \<Rightarrow> VBool b | None \<Rightarrow> VString s)))
   \<and> convertValueToType pf ''0'' = VInt 0
   \<and> convertValueToType pf ''1'' = VInt 1
   \<and> convertValueToType pf ''123'' = VInt 123
   \<and> (pf ''1.5'' = Some x \<longrightarrow> convertValueToType pf ''1.5'' = VFloat x)
   \<and> (pf ''true'' = None \<longrightarrow> convertValueToType pf ''true'' = VBool True)"
proof -
  have order: "convertValueToType pf s =
     (case Atoi s of
        Some i \<Rightarrow> VInt i
      | None \<Rightarrow> (case pf s of
                   Some x \<Rightarrow> VFloat x
                 | None \<Rightarrow> (case ParseBool s of Some b \<Rightarrow> VBool b | None \<Rightarrow> VString s)))"
    for s
    by (simp add: convertValueToType_def Atoi_def split: option.splits)
  have b: "ParseBool ''true'' = Some True"
    by (simp add: ParseBool_def)
  show ?thesis
    by (simp add: order Atoi_0 Atoi_1 Atoi_123 Atoi_1_5 Atoi_true b)
qed

theorem convertValueToType_priority_witness:
  "convertValueToType (\<lambda>s. if s = ''1.5'' then Some 0x3FF8000000000000 else None) ''1.5''
     = VFloat 0x3FF8000000000000
   \<and> convertValueToType (\<lambda>s. if s = ''1.5'' then Some 0x3FF8000000000000 else None) ''true''
     = VBool True
   \<and> convertValueToType (\<lambda>s. if s = ''1.5'' then Some 0x3FF8000000000000 else None) ''0''
     = VInt 0"
proof -
  let ?pf = "\<lambda>s. if s = ''1.5'' then Some (0x3FF8000000000000 :: float64) else None"
  note t = convertValueToType_priority [of ?pf "''0''" "0x3FF8000000000000"]
  have a: "?pf ''1.5'' = Some 0x3FF8000000000000" by simp
  have b: "?pf ''true'' = None" by simp
  from t a have c1: "convertValueToType ?pf ''1.5'' = VFloat 0x3FF8000000000000" by blast
  from t b have c2: "convertValueToType ?pf ''true'' = VBool True" by blast
  from t have c3: "convertValueToType ?pf ''0'' = VInt 0" by blast
  from c1 c2 c3 show ?thesis by blast
qed

section \<open>Properties of the key-path parser\<close>












section \<open>Properties of the grouping loop and of the materializer\<close>

lemma keep_set_arrayItem [simp]:
  "isSimple (set_arrayItem i c g) = isSimple g" "gValue (set_arrayItem i c g) = gValue g"
  by (cases g; simp)+

lemma keep_set_child [simp]:
  "isSimple (set_child k c g) = isSimple g" "gValue (set_child k c g) = gValue g"
  by (cases g; simp)+

lemma keep_set_isArray [simp]:
  "isSimple (set_isArray g) = isSimple g" "gValue (set_isArray g) = gValue g"
  by (cases g; simp)+

lemma keep_set_isObject [simp]:
  "isSimple (set_isObject g) = isSimple g" "gValue (set_isObject g) = gValue g"
  by (cases g; simp)+

lemma setValue_simple_sel [simp]:
  "isSimple (setValue_simple v g)" "gValue (setValue_simple v g) = v"
  by (cases g; simp)+









lemma loop_distinct:
  "groupKeysLoop pf corpus groups = Inr groups' \<Longrightarrow> distinct (map fst groups)
     \<Longrightarrow> distinct (map fst groups')"
proof (induction corpus arbitrary: groups)
  case Nil
  then show ?case by simp
next
  case (Cons entry rest)
  obtain key valueSlice where entry: "entry = (key, valueSlice)"
    by (cases entry)
  show ?case
  proof (cases valueSlice)
    case Nil
    then show ?thesis using Cons entry by simp
  next
    case (Cons w ws)
    from Cons.prems(1) entry Cons obtain kk gg
      where "groupKeysLoop pf rest (AList.update kk gg groups) = Inr groups'"
      by (auto simp: Let_def split: sum.splits)
    then show ?thesis
      using Cons.IH Cons.prems(2) by (blast intro: distinct_update)
  qed
qed

lemma rangeLoop_untouched:
  assumes "rangeLoop kvs body acc = Inr result"
    and "\<And>k' x a r. (k', x) \<in> set kvs \<Longrightarrow> body k' x a = Inr r \<Longrightarrow> map_of r k = map_of a k"
  shows "map_of result k = map_of acc k"
  using assms
proof (induction kvs arbitrary: acc)
  case Nil
  then show ?case by simp
next
  case (Cons kv kvs)
  obtain k' x where kv: "kv = (k', x)" by (cases kv)
  from Cons.prems(1) kv obtain a' where a': "body k' x acc = Inr a'" "rangeLoop kvs body a' = Inr result"
    by (auto split: sum.splits)
  have "map_of a' k = map_of acc k"
    using Cons.prems(2) [of k' x acc a'] kv a'(1) by simp
  moreover have "map_of result k = map_of a' k"
    using Cons.IH [OF a'(2)] Cons.prems(2) by (metis list.set_intros(2))
  ultimately show ?case by simp
qed

lemma parseFormFlexibly_emit:
  "parseFormFlexibly pf corpus =
     (case groupKeysByStructure pf corpus of
        Inl e \<Rightarrow> Inl e
      | Inr keyGroups \<Rightarrow> rangeLoop keyGroups emit [])"
  unfolding parseFormFlexibly_def emit_def by (rule refl)

lemma emit_other:
  "emit k' g a = Inr r \<Longrightarrow> k' \<noteq> k \<Longrightarrow> map_of r k = map_of a k"
  by (auto simp: emit_def update_conv' split: if_splits sum.splits)






section \<open>Properties of the array materializer\<close>

lemma fold_max: "fold (\<lambda>(index, _) m. if index > m then index else m) ad (m::int) = Max (insert m (fst ` set ad))"
proof (induction ad arbitrary: m)
  case Nil
  then show ?case by simp
next
  case (Cons a ad)
  obtain i c where a: "a = (i, c)" by (cases a)
  have "Max (insert (max i m) (fst ` set ad)) = Max (insert m (insert i (fst ` set ad)))"
    by (cases "fst ` set ad = {}") (auto simp: max.commute max.left_commute)
  then show ?case
    using Cons.IH [of "if i > m then i else m"] a by (simp add: max_def not_less split: if_splits)
qed

lemma addInt_plain: "- (2 ^ 63) \<le> a + b \<Longrightarrow> a + b < 2 ^ 63 \<Longrightarrow> addInt a b = a + b"
  unfolding addInt_def sint_sbintrunc' by (simp add: signed_take_bit_int_eq_self)

lemma rangeLoop_total:
  assumes "I s"
    and "\<And>k v s. (k, v) \<in> set kvs \<Longrightarrow> I s \<Longrightarrow> \<exists>s'. body k v s = Inr s' \<and> I s'"
  shows "\<exists>s'. rangeLoop kvs body s = Inr s' \<and> I s'"
  using assms
proof (induction kvs arbitrary: s)
  case Nil
  then show ?case by simp
next
  case (Cons kv kvs)
  obtain k v where kv: "kv = (k, v)" by (cases kv)
  from Cons.prems(2) [of k v s] Cons.prems(1) kv obtain s1 where s1: "body k v s = Inr s1" "I s1"
    by auto
  have "\<exists>s'. rangeLoop kvs body s1 = Inr s' \<and> I s'"
    using Cons.IH [OF s1(2)] Cons.prems(2) by (metis list.set_intros(2))
  then show ?case
    using kv s1(1) by simp
qed

lemma storeAt_loop:
  assumes "distinct (map fst ad)"
    and "\<forall>(i, c) \<in> set ad. 0 \<le> i \<and> i < int (length acc)"
    and "\<forall>(i, c) \<in> set ad. \<exists>x. m c = Inr x"
  shows "\<exists>arr. rangeLoop ad (\<lambda>index arrayItem result. storeAt index (m arrayItem) result) acc = Inr arr
           \<and> length arr = length acc
           \<and> (\<forall>(i, c) \<in> set ad. \<exists>x. m c = Inr x
                  \<and> arr ! nat i = (case x of None \<Rightarrow> acc ! nat i | Some y \<Rightarrow> y))
           \<and> (\<forall>j < length acc. int j \<notin> fst ` set ad \<longrightarrow> arr ! j = acc ! j)"
  using assms
proof (induction ad arbitrary: acc)
  case Nil
  then show ?case by simp
next
  case (Cons ic ad)
  obtain i c where ic: "ic = (i, c)" by (cases ic)
  from Cons.prems(3) ic obtain x where x: "m c = Inr x" by auto
  have i: "0 \<le> i" "i < int (length acc)" "i \<notin> fst ` set ad"
    using Cons.prems(1,2) ic by auto
  define acc' where "acc' = (case x of None \<Rightarrow> acc | Some y \<Rightarrow> acc[nat i := y])"
  have step: "storeAt i (m c) acc = Inr acc'"
    using x i by (simp add: storeAt_def setIndex_def acc'_def split: option.splits)
  have len: "length acc' = length acc"
    by (simp add: acc'_def split: option.splits)
  have "\<exists>arr. rangeLoop ad (\<lambda>index arrayItem result. storeAt index (m arrayItem) result) acc' = Inr arr
           \<and> length arr = length acc'
           \<and> (\<forall>(i, c) \<in> set ad. \<exists>x. m c = Inr x
                  \<and> arr ! nat i = (case x of None \<Rightarrow> acc' ! nat i | Some y \<Rightarrow> y))
           \<and> (\<forall>j < length acc'. int j \<notin> fst ` set ad \<longrightarrow> arr ! j = acc' ! j)"
    using Cons.prems ic len by (intro Cons.IH) auto
  then obtain arr where arr:
    "rangeLoop ad (\<lambda>index arrayItem result. storeAt index (m arrayItem) result) acc' = Inr arr"
    "length arr = length acc'"
    "\<forall>(i, c) \<in> set ad. \<exists>x. m c = Inr x
        \<and> arr ! nat i = (case x of None \<Rightarrow> acc' ! nat i | Some y \<Rightarrow> y)"
    "\<forall>j < length acc'. int j \<notin> fst ` set ad \<longrightarrow> arr ! j = acc' ! j"
    by blast
  have other: "acc' ! nat i' = acc ! nat i'" if "(i', c') \<in> set ad" for i' c'
  proof -
    have "0 \<le> i'" "i' \<noteq> i"
      using that Cons.prems(2) i(3) by (auto simp: rev_image_eqI)
    then have "nat i' \<noteq> nat i" using i(1) by simp
    then show ?thesis by (simp add: acc'_def split: option.splits)
  qed
  have here: "arr ! nat i = (case x of None \<Rightarrow> acc ! nat i | Some y \<Rightarrow> y)"
  proof -
    have "nat i < length acc'" "int (nat i) \<notin> fst ` set ad"
      using i len by auto
    then have "arr ! nat i = acc' ! nat i"
      using arr(4) by blast
    then show ?thesis
      using i by (simp add: acc'_def split: option.splits)
  qed
  have rest: "\<forall>j < length acc. int j \<notin> fst ` set (ic # ad) \<longrightarrow> arr ! j = acc ! j"
  proof (intro allI impI)
    fix j assume j: "j < length acc" "int j \<notin> fst ` set (ic # ad)"
    then have "int j \<noteq> i" "int j \<notin> fst ` set ad"
      using ic by auto
    then have "arr ! j = acc' ! j" "j \<noteq> nat i"
      using arr(4) j(1) len i(1) by auto
    then show "arr ! j = acc ! j"
      by (simp add: acc'_def split: option.splits)
  qed
  have elems: "\<exists>x. m c' = Inr x
                  \<and> arr ! nat i' = (case x of None \<Rightarrow> acc ! nat i' | Some y \<Rightarrow> y)"
    if "(i', c') \<in> set (ic # ad)" for i' c'
  proof (cases "(i', c') = (i, c)")
    case True
    then show ?thesis using x here by auto
  next
    case False
    then have mem: "(i', c') \<in> set ad" using that ic by auto
    with arr(3) obtain x' where "m c' = Inr x'"
      "arr ! nat i' = (case x' of None \<Rightarrow> acc' ! nat i' | Some y \<Rightarrow> y)"
      by blast
    then show ?thesis
      using other [OF mem] by (auto split: option.splits)
  qed
  have "rangeLoop (ic # ad) (\<lambda>index arrayItem result. storeAt index (m arrayItem) result) acc = Inr arr"
    using step arr(1) ic by simp
  moreover have "\<forall>(i', c') \<in> set (ic # ad). \<exists>x. m c' = Inr x
                  \<and> arr ! nat i' = (case x of None \<Rightarrow> acc ! nat i' | Some y \<Rightarrow> y)"
  proof (intro ballI, clarify)
    fix i' c' assume "(i', c') \<in> set (ic # ad)"
    then show "\<exists>x. m c' = Inr x
                  \<and> arr ! nat i' = (case x of None \<Rightarrow> acc ! nat i' | Some y \<Rightarrow> y)"
      by (rule elems)
  qed
  ultimately show ?case
    using arr(2) len rest by auto
qed

lemma materialize_total:
  assumes "\<exists>arr. bA c = Inr arr" and "\<exists>obj. bO c = Inr obj"
  shows "\<exists>x. materialize bA bO c = Inr x"
  using assms by (auto simp: materialize_def)

lemma indicesInRange_arrayItem:
  "indicesInRange g \<Longrightarrow> (i, c) \<in> set (arrayData g) \<Longrightarrow> 0 \<le> i \<and> i < 2 ^ 44 \<and> indicesInRange c"
  by (cases g) (auto simp: list_all_iff)

lemma indicesInRange_child:
  "indicesInRange g \<Longrightarrow> (k, c) \<in> set (children g) \<Longrightarrow> indicesInRange c"
  by (cases g) (auto simp: list_all_iff)

lemma maxIndexOf_bounds:
  assumes "\<forall>(i, c) \<in> set ad. 0 \<le> i \<and> i < 2 ^ 44"
  shows "0 \<le> maxIndexOf ad \<and> maxIndexOf ad < 2 ^ 44
         \<and> (\<forall>(i, c) \<in> set ad. i \<le> maxIndexOf ad)
         \<and> (ad \<noteq> [] \<longrightarrow> maxIndexOf ad = Max (fst ` set ad))"
proof -
  have m: "maxIndexOf ad = Max (insert 0 (fst ` set ad))"
    by (simp add: maxIndexOf_def fold_max)
  have fin: "finite (insert 0 (fst ` set ad))" by simp
  have mem: "Max (insert 0 (fst ` set ad)) \<in> insert 0 (fst ` set ad)"
    by (rule Max_in) simp_all
  have le: "i \<le> Max (insert 0 (fst ` set ad))" if "(i, c) \<in> set ad" for i c
    using that by (intro Max_ge) (auto simp: rev_image_eqI)
  have ge0: "0 \<le> Max (insert 0 (fst ` set ad))"
    by (intro Max_ge) simp_all
  have lt: "Max (insert 0 (fst ` set ad)) < 2 ^ 44"
    using mem assms by auto
  have eq: "Max (insert 0 (fst ` set ad)) = Max (fst ` set ad)" if "ad \<noteq> []"
  proof -
    from that obtain i c where ic: "(i, c) \<in> set ad" by (cases ad) auto
    then have "0 \<le> i" using assms by auto
    moreover have "i \<le> Max (fst ` set ad)"
      using ic by (intro Max_ge) (auto simp: rev_image_eqI)
    ultimately have "0 \<le> Max (fst ` set ad)" by simp
    then show ?thesis
      using that by (subst Max_insert) (auto simp: max_def)
  qed
  show ?thesis
    using m le ge0 lt eq by auto
qed

lemma build_total:
  "(indicesInRange g \<longrightarrow> (\<exists>arr. buildArrayFromGroup g = Inr arr))
   \<and> (indicesInRange g \<longrightarrow> (\<exists>obj. buildObjectFromGroup g = Inr obj))"
proof (induction g rule: measure_induct_rule [where f = size])
  case (less g)
  obtain b v s a ob ch ad where g: "g = KeyGroup b v s a ob ch ad" by (cases g)
  have sub: "\<exists>x. materialize buildArrayFromGroup buildObjectFromGroup c = Inr x"
    if "(k, c) \<in> set ch \<or> (i, c) \<in> set ad" "indicesInRange g" for k i c
  proof -
    have "size c < size g"
      using that(1) g size_keyGroup_member [of k c ch] size_keyGroup_member [of i c ad] by auto
    moreover have "indicesInRange c"
      using that g indicesInRange_arrayItem [of g i c] indicesInRange_child [of g k c] by auto
    ultimately show ?thesis
      using less.IH [of c] by (intro materialize_total) auto
  qed
  have arr: "\<exists>arr. buildArrayFromGroup g = Inr arr" if ok: "indicesInRange g"
  proof (cases "ad = []")
    case True
    then show ?thesis by (simp add: g buildArrayFromGroup.simps)
  next
    case False
    have rng: "\<forall>(i, c) \<in> set ad. 0 \<le> i \<and> i < 2 ^ 44"
      using ok g by (auto simp: list_all_iff)
    note mb = maxIndexOf_bounds [OF rng]
    define n where "n = nat (maxIndexOf ad + 1)"
    have mk: "makeSlice (addInt (maxIndexOf ad) 1) = Inr (replicate n VNil)"
      using mb by (simp add: addInt_plain makeSlice_def maxAlloc_def interfaceSize_def n_def)
    have "\<exists>r. rangeLoop ad (\<lambda>index arrayItem result.
              storeAt index (materialize buildArrayFromGroup buildObjectFromGroup arrayItem) result)
              (replicate n VNil) = Inr r \<and> length r = n"
    proof (rule rangeLoop_total [where I = "\<lambda>r. length r = n"])
      show "length (replicate n VNil) = n" by simp
    next
      fix i c and r :: "val list"
      assume ic: "(i, c) \<in> set ad" and r: "length r = n"
      from sub [of _ c i] ic ok obtain x
        where x: "materialize buildArrayFromGroup buildObjectFromGroup c = Inr x" by blast
      have "0 \<le> i" "i < int n"
        using rng mb ic by (auto simp: n_def)
      then show "\<exists>s'. storeAt i (materialize buildArrayFromGroup buildObjectFromGroup c) r = Inr s'
                  \<and> length s' = n"
        using x r by (auto simp: storeAt_def setIndex_def split: option.splits)
    qed
    then show ?thesis
      using False mk by (auto simp: g buildArrayFromGroup.simps)
  qed
  have obj: "\<exists>obj. buildObjectFromGroup g = Inr obj" if ok: "indicesInRange g"
  proof -
    have 1: "\<exists>r. rangeLoop ch (\<lambda>key child result.
                storeKey key (materialize buildArrayFromGroup buildObjectFromGroup child) result)
              (if s then [(''value'', v)] else []) = Inr r \<and> True"
    proof (rule rangeLoop_total [where I = "\<lambda>_. True"])
      fix k c and r :: "(string \<times> val) list"
      assume "(k, c) \<in> set ch"
      with sub [of k c] ok obtain x
        where "materialize buildArrayFromGroup buildObjectFromGroup c = Inr x" by blast
      then show "\<exists>s'. storeKey k (materialize buildArrayFromGroup buildObjectFromGroup c) r = Inr s' \<and> True"
        by (auto simp: storeKey_def split: option.splits)
    qed simp
    then obtain r1 where r1: "rangeLoop ch (\<lambda>key child result.
                storeKey key (materialize buildArrayFromGroup buildObjectFromGroup child) result)
              (if s then [(''value'', v)] else []) = Inr r1" by blast
    have 2: "\<exists>r. rangeLoop ad (\<lambda>key child result.
                storeKey (FormatInt key) (materialize buildArrayFromGroup buildObjectFromGroup child) result)
              r1 = Inr r \<and> True"
    proof (rule rangeLoop_total [where I = "\<lambda>_. True"])
      fix i c and r :: "(string \<times> val) list"
      assume "(i, c) \<in> set ad"
      with sub [of _ c i] ok obtain x
        where "materialize buildArrayFromGroup buildObjectFromGroup c = Inr x" by blast
      then show "\<exists>s'. storeKey (FormatInt i) (materialize buildArrayFromGroup buildObjectFromGroup c) r = Inr s' \<and> True"
        by (auto simp: storeKey_def split: option.splits)
    qed simp
    then show ?thesis
      using r1 by (auto simp: g buildObjectFromGroup.simps)
  qed
  show ?case using arr obj by blast
qed

lemma dense_array_node:
  assumes "indicesInRange g" and "arrayData g \<noteq> []" and "distinct (map fst (arrayData g))"
  shows "\<exists>arr. buildArrayFromGroup g = Inr arr
           \<and> int (length arr) = Max (fst ` set (arrayData g)) + 1
           \<and> (\<forall>(i, c) \<in> set (arrayData g).
                 \<exists>x. materialize buildArrayFromGroup buildObjectFromGroup c = Inr x
                   \<and> arr ! nat i = (case x of None \<Rightarrow> VNil | Some y \<Rightarrow> y))
           \<and> (\<forall>j < length arr. int j \<notin> fst ` set (arrayData g) \<longrightarrow> arr ! j = VNil)"
proof -
  obtain b v s a ob ch ad where g: "g = KeyGroup b v s a ob ch ad" by (cases g)
  have ad: "ad \<noteq> []" "distinct (map fst ad)"
    using assms(2,3) g by simp_all
  have rng: "\<forall>(i, c) \<in> set ad. 0 \<le> i \<and> i < 2 ^ 44"
    using assms(1) g by (auto simp: list_all_iff)
  note mb = maxIndexOf_bounds [OF rng]
  define n where "n = nat (maxIndexOf ad + 1)"
  have n: "int n = Max (fst ` set ad) + 1"
    using mb ad(1) by (simp add: n_def)
  have mk: "makeSlice (addInt (maxIndexOf ad) 1) = Inr (replicate n VNil)"
    using mb by (simp add: addInt_plain makeSlice_def maxAlloc_def interfaceSize_def n_def)
  have inb: "\<forall>(i, c) \<in> set ad. 0 \<le> i \<and> i < int (length (replicate n VNil))"
    using rng mb by (auto simp: n_def)
  have sub: "\<forall>(i, c) \<in> set ad. \<exists>x. materialize buildArrayFromGroup buildObjectFromGroup c = Inr x"
  proof (intro ballI, clarify)
    fix i c assume "(i, c) \<in> set ad"
    then have "indicesInRange c"
      using assms(1) g indicesInRange_arrayItem [of g i c] by simp
    then show "\<exists>x. materialize buildArrayFromGroup buildObjectFromGroup c = Inr x"
      using build_total [of c] by (intro materialize_total) auto
  qed
  from storeAt_loop [OF ad(2) inb sub] obtain arr where arr:
    "rangeLoop ad (\<lambda>index arrayItem result.
        storeAt index (materialize buildArrayFromGroup buildObjectFromGroup arrayItem) result)
        (replicate n VNil) = Inr arr"
    "length arr = n"
    "\<forall>(i, c) \<in> set ad. \<exists>x. materialize buildArrayFromGroup buildObjectFromGroup c = Inr x
        \<and> arr ! nat i = (case x of None \<Rightarrow> replicate n VNil ! nat i | Some y \<Rightarrow> y)"
    "\<forall>j < n. int j \<notin> fst ` set ad \<longrightarrow> arr ! j = replicate n VNil ! j"
    by auto
  have build: "buildArrayFromGroup g = Inr arr"
    using ad(1) mk arr(1) by (simp add: g buildArrayFromGroup.simps)
  have elems: "\<forall>(i, c) \<in> set ad. \<exists>x. materialize buildArrayFromGroup buildObjectFromGroup c = Inr x
        \<and> arr ! nat i = (case x of None \<Rightarrow> VNil | Some y \<Rightarrow> y)"
  proof (intro ballI, clarify)
    fix i c assume ic: "(i, c) \<in> set ad"
    with arr(3) obtain x where x: "materialize buildArrayFromGroup buildObjectFromGroup c = Inr x"
      "arr ! nat i = (case x of None \<Rightarrow> replicate n VNil ! nat i | Some y \<Rightarrow> y)"
      by blast
    have "nat i < n" using inb ic by auto
    then show "\<exists>x. materialize buildArrayFromGroup buildObjectFromGroup c = Inr x
        \<and> arr ! nat i = (case x of None \<Rightarrow> VNil | Some y \<Rightarrow> y)"
      using x by (auto split: option.splits)
  qed
  have gaps: "\<forall>j < length arr. int j \<notin> fst ` set ad \<longrightarrow> arr ! j = VNil"
    using arr(2,4) by auto
  show ?thesis
    using build n arr(2) elems gaps by (simp add: g)
qed

lemma inRange_new [simp]: "indicesInRange (newKeyGroup b)"
  by (simp add: newKeyGroup_def)

lemma inRange_setValue_simple [simp]: "indicesInRange (setValue_simple v g) = indicesInRange g"
  by (cases g) simp

lemma inRange_set_isArray [simp]: "indicesInRange (set_isArray g) = indicesInRange g"
  by (cases g) simp

lemma inRange_set_isObject [simp]: "indicesInRange (set_isObject g) = indicesInRange g"
  by (cases g) simp

lemma set_update_subset: "set (AList.update k v al) \<subseteq> insert (k, v) (set al)"
  by (induction al) auto

lemma inRange_set_child:
  "indicesInRange g \<Longrightarrow> indicesInRange c \<Longrightarrow> indicesInRange (set_child k c g)"
  using set_update_subset [of k c "children g"] by (cases g) (auto simp: list_all_iff)

lemma inRange_set_arrayItem:
  "indicesInRange g \<Longrightarrow> indicesInRange c \<Longrightarrow> 0 \<le> i \<Longrightarrow> i < 2 ^ 44
     \<Longrightarrow> indicesInRange (set_arrayItem i c g)"
  using set_update_subset [of i c "arrayData g"] by (cases g) (auto simp: list_all_iff)

lemma inRange_getOrCreate_child:
  "indicesInRange g \<Longrightarrow> indicesInRange (getOrCreate (children g) k b)"
  by (cases g) (auto simp: getOrCreate_def list_all_iff split: option.splits dest: map_of_SomeD)

lemma inRange_getOrCreate_arrayItem:
  "indicesInRange g \<Longrightarrow> indicesInRange (getOrCreate (arrayData g) i b)"
  by (cases g) (auto simp: getOrCreate_def list_all_iff split: option.splits dest: map_of_SomeD)

lemma inRange_addNested:
  "indicesInRange g \<Longrightarrow> pathInRange p \<Longrightarrow> indicesInRange (addNestedToGroup pf g p v)"
proof (induction p arbitrary: g)
  case Nil
  then show ?case by simp
next
  case (Cons s p)
  have p: "pathInRange p"
    using Cons.prems(2) by (simp add: pathInRange_def)
  show ?case
  proof (cases "isNumeric s")
    case True
    then obtain i where i: "Atoi s = Some i"
      by (auto simp: isNumeric_def split: option.splits)
    then have rng: "0 \<le> i" "i < 2 ^ 44"
      using Cons.prems(2) by (simp_all add: pathInRange_def)
    have "indicesInRange (addNestedToGroup pf (set_isArray (getOrCreate (arrayData g) i s)) p v)"
      using Cons.prems(1) p by (intro Cons.IH) (simp_all add: inRange_getOrCreate_arrayItem)
    then show ?thesis
      using True i rng Cons.prems(1) by (simp add: Let_def inRange_set_arrayItem)
  next
    case False
    have "indicesInRange (addNestedToGroup pf (getOrCreate (children g) s s) p v)"
      using Cons.prems(1) p by (intro Cons.IH) (simp_all add: inRange_getOrCreate_child)
    then show ?thesis
      using False Cons.prems(1)
      by (simp add: Let_def inRange_set_child inRange_getOrCreate_child)
  qed
qed

lemma inRange_addToArrayGroup:
  "indicesInRange g \<Longrightarrow> pathInRange (path parsed) \<Longrightarrow> 0 \<le> arrayIndex parsed
     \<Longrightarrow> arrayIndex parsed < 2 ^ 44 \<Longrightarrow> indicesInRange (addToArrayGroup pf g parsed v)"
  by (simp add: addToArrayGroup_def Let_def inRange_set_arrayItem inRange_addNested
      inRange_getOrCreate_arrayItem)

lemma inRange_addToObjectGroup:
  "indicesInRange g \<Longrightarrow> pathInRange (path parsed) \<Longrightarrow> indicesInRange (addToObjectGroup pf g parsed v)"
  by (simp add: addToObjectGroup_def inRange_addNested)

lemma groupsInRange_update:
  "groupsInRange groups \<Longrightarrow> indicesInRange g \<Longrightarrow> groupsInRange (AList.update k g groups)"
  using set_update_subset [of k g groups] by (auto simp: groupsInRange_def list_all_iff)

lemma groupsInRange_getOrCreate:
  "groupsInRange groups \<Longrightarrow> indicesInRange (getOrCreate groups k b)"
  by (auto simp: groupsInRange_def getOrCreate_def list_all_iff split: option.splits dest: map_of_SomeD)

lemma groupKeysLoop_total:
  "\<forall>(key, vs) \<in> set corpus. vs \<noteq> [] \<longrightarrow> keyInRange key \<Longrightarrow> groupsInRange groups
     \<Longrightarrow> \<exists>groups'. groupKeysLoop pf corpus groups = Inr groups' \<and> groupsInRange groups'"
proof (induction corpus arbitrary: groups)
  case Nil
  then show ?case by simp
next
  case (Cons entry rest)
  obtain key valueSlice where entry: "entry = (key, valueSlice)" by (cases entry)
  have rest: "\<forall>(key, vs) \<in> set rest. vs \<noteq> [] \<longrightarrow> keyInRange key"
    using Cons.prems(1) by simp
  show ?case
  proof (cases valueSlice)
    case Nil
    then show ?thesis
      using Cons.IH [OF rest Cons.prems(2)] entry by simp
  next
    case (Cons w ws)
    then have "keyInRange key"
      using Cons.prems(1) entry by simp
    then obtain parsed where parsed: "parseKeyStructure key = Inr parsed"
      "isArray parsed \<longrightarrow> 0 \<le> arrayIndex parsed \<and> arrayIndex parsed < 2 ^ 44"
      "pathInRange (path parsed)"
      by (auto simp: keyInRange_def split: sum.splits)
    define grp where "grp = getOrCreate groups (baseKey parsed) (baseKey parsed)"
    define grp' where "grp' =
       (if isArray parsed then addToArrayGroup pf (set_isArray grp) parsed w
        else if isNested parsed then addToObjectGroup pf (set_isObject grp) parsed w
        else setValue_simple (VString w) grp)"
    have "indicesInRange grp"
      using Cons.prems(2) by (simp add: grp_def groupsInRange_getOrCreate)
    then have "indicesInRange grp'"
      using parsed(2,3) by (simp add: grp'_def inRange_addToArrayGroup inRange_addToObjectGroup)
    then have "groupsInRange (AList.update (baseKey parsed) grp' groups)"
      using Cons.prems(2) by (rule groupsInRange_update [rotated])
    from Cons.IH [OF rest this] obtain groups'
      where "groupKeysLoop pf rest (AList.update (baseKey parsed) grp' groups) = Inr groups'"
        "groupsInRange groups'" by blast
    then show ?thesis
      using entry Cons parsed(1) by (auto simp: grp_def grp'_def Let_def)
  qed
qed

lemma arrayData_set_isArray [simp]: "arrayData (set_isArray g) = arrayData g"
  by (cases g) simp

lemma gIsArray_set_isArray [simp]: "gIsArray (set_isArray g)"
  by (cases g) simp

lemma gIsArray_set_arrayItem [simp]: "gIsArray (set_arrayItem i c g) = gIsArray g"
  by (cases g) simp

lemma arrayData_set_arrayItem [simp]:
  "arrayData (set_arrayItem i c g) = AList.update i c (arrayData g)"
  by (cases g) simp

lemma addToArrayGroup_shape:
  "\<exists>c. addToArrayGroup pf g parsed v = set_arrayItem (arrayIndex parsed) c g"
  by (cases "path parsed = []") (auto simp: addToArrayGroup_def Let_def)

lemma loop_tracks_array:
  "groupKeysLoop pf corpus groups = Inr groups' \<Longrightarrow> onlyIndexedUnder k corpus
     \<Longrightarrow> arrayNodeAt k S groups \<Longrightarrow> arrayNodeAt k (S \<union> set (indicesUnder k corpus)) groups'"
proof (induction corpus arbitrary: groups S)
  case Nil
  then show ?case by (simp add: indicesUnder_def)
next
  case (Cons entry rest)
  obtain key valueSlice where entry: "entry = (key, valueSlice)" by (cases entry)
  note prems = Cons.prems [unfolded entry]
  have rest: "onlyIndexedUnder k rest"
    using prems(2) by (simp add: onlyIndexedUnder_def)
  show ?case
  proof (cases valueSlice)
    case Nil
    then have "indicesUnder k (entry # rest) = indicesUnder k rest"
      by (simp add: indicesUnder_def entry)
    then show ?thesis
      using Cons.IH [OF _ rest prems(3)] prems(1) Nil by simp
  next
    case (Cons w ws)
    from prems(1) Cons obtain parsed where parsed: "parseKeyStructure key = Inr parsed"
      by (auto split: sum.splits)
    define grp where "grp = getOrCreate groups (baseKey parsed) (baseKey parsed)"
    define grp' where "grp' =
       (if isArray parsed then addToArrayGroup pf (set_isArray grp) parsed w
        else if isNested parsed then addToObjectGroup pf (set_isObject grp) parsed w
        else setValue_simple (VString w) grp)"
    have run: "groupKeysLoop pf rest (AList.update (baseKey parsed) grp' groups) = Inr groups'"
      using prems(1) Cons parsed by (auto simp: grp_def grp'_def Let_def split: if_splits)
    define new where "new = (if baseKey parsed = k \<and> isArray parsed then [arrayIndex parsed] else [])"
    have ind: "indicesUnder k (entry # rest) = new @ indicesUnder k rest"
      using Cons parsed by (simp add: indicesUnder_def entry new_def)
    have "arrayNodeAt k (S \<union> set new) (AList.update (baseKey parsed) grp' groups)"
    proof (cases "baseKey parsed = k")
      case False
      then show ?thesis
        using prems(3) by (simp add: arrayNodeAt_def update_conv' new_def)
    next
      case True
      then have arr: "isArray parsed"
        using prems(2) Cons parsed by (simp add: onlyIndexedUnder_def)
      obtain c where c: "grp' = set_arrayItem (arrayIndex parsed) c (set_isArray grp)"
        using addToArrayGroup_shape [of pf "set_isArray grp" parsed w] arr by (auto simp: grp'_def)
      have grp: "\<not> isSimple grp \<and> fst ` set (arrayData grp) = S \<and> distinct (map fst (arrayData grp))"
        using prems(3) True
        by (auto simp: arrayNodeAt_def grp_def getOrCreate_def newKeyGroup_def split: option.splits)
      have "\<not> isSimple grp' \<and> gIsArray grp'
          \<and> fst ` set (arrayData grp') = insert (arrayIndex parsed) S
          \<and> distinct (map fst (arrayData grp'))"
        using grp by (simp add: c dom_update distinct_update)
      then show ?thesis
        using True arr by (simp add: arrayNodeAt_def update_conv' new_def)
    qed
    from Cons.IH [OF run rest this] show ?thesis
      by (simp add: ind Un_assoc)
  qed
qed

lemma emit_loop_array:
  "rangeLoop kgs emit acc = Inr result \<Longrightarrow> distinct (map fst kgs) \<Longrightarrow> map_of kgs k = Some g
     \<Longrightarrow> \<not> isSimple g \<Longrightarrow> gIsArray g
     \<Longrightarrow> \<exists>arr. buildArrayFromGroup g = Inr arr \<and> map_of result k = Some (VArray arr)"
proof (induction kgs arbitrary: acc)
  case Nil
  then show ?case by simp
next
  case (Cons kg kgs)
  obtain k' g' where kg: "kg = (k', g')" by (cases kg)
  from Cons.prems(1) kg obtain a' where a': "emit k' g' acc = Inr a'" "rangeLoop kgs emit a' = Inr result"
    by (auto split: sum.splits)
  show ?case
  proof (cases "k' = k")
    case True
    then have g': "g' = g" using Cons.prems(3) kg by simp
    have notin: "k \<notin> fst ` set kgs"
      using Cons.prems(2) kg True by auto
    have same: "map_of result k = map_of a' k"
    proof (rule rangeLoop_untouched [OF a'(2)])
      fix k'' x a r
      assume "(k'', x) \<in> set kgs" "emit k'' x a = Inr r"
      then show "map_of r k = map_of a k"
        using notin by (intro emit_other) (auto simp: rev_image_eqI)
    qed
    from a'(1) True g' Cons.prems(4,5) obtain arr
      where "buildArrayFromGroup g = Inr arr" "a' = AList.update k (VArray arr) acc"
      by (auto simp: emit_def split: sum.splits)
    then show ?thesis
      using same by (simp add: update_conv')
  next
    case False
    then show ?thesis
      using Cons.IH [OF a'(2)] Cons.prems kg by simp
  qed
qed

lemma emit_total:
  "groupsInRange kgs \<Longrightarrow> \<exists>result. rangeLoop kgs emit acc = Inr result"
proof -
  assume ok: "groupsInRange kgs"
  have "\<exists>s'. rangeLoop kgs emit acc = Inr s' \<and> True"
  proof (rule rangeLoop_total [where I = "\<lambda>_. True"])
    fix k g and s :: "(string \<times> val) list"
    assume "(k, g) \<in> set kgs"
    then have "indicesInRange g"
      using ok by (auto simp: groupsInRange_def list_all_iff)
    then show "\<exists>s'. emit k g s = Inr s' \<and> True"
      using build_total [of g] by (auto simp: emit_def)
  qed simp
  then show ?thesis by blast
qed

lemma parseFormFlexibly_total:
  assumes "corpusInRange corpus"
  shows "\<exists>result. parseFormFlexibly pf corpus = Inr result"
proof -
  have "groupsInRange []" by (simp add: groupsInRange_def)
  from groupKeysLoop_total [OF assms [unfolded corpusInRange_def] this] obtain groups
    where "groupKeysLoop pf corpus [] = Inr groups" "groupsInRange groups"
    by blast
  then show ?thesis
    using emit_total [of groups "[]"]
    by (auto simp: parseFormFlexibly_emit groupKeysByStructure_def)
qed

text \<open>
  C5 (as amended). In a corpus whose keys parse and hold only indices between 0 and
  \<open>2 ^ 44 - 1\<close>, so that every length \<open>max(index)+1\<close> is one that \<^verbatim>\<open>make\<close> accepts, a
  base key whose entries all start with an index segment materializes (the conversion
  succeeds) as a sequence of length \<open>max(index)+1\<close>: the slot of every supplied index
  holds the materialized value of the node of that index, and every other slot holds
  nil. The key supplied only at index 3 yields a sequence of length 4 with nil at 0, 1
  and 2. A negative index, which the key-path parser accepts as well, is outside this
  statement.
\<close>

theorem indexed_key_dense_array:
  assumes ok: "corpusInRange corpus"
    and indexed: "onlyIndexedUnder k corpus"
    and supplied: "indicesUnder k corpus \<noteq> []"
  shows "\<exists>groups g arr result.
           groupKeysByStructure pf corpus = Inr groups \<and> map_of groups k = Some g
         \<and> fst ` set (arrayData g) = set (indicesUnder k corpus)
         \<and> parseFormFlexibly pf corpus = Inr result \<and> map_of result k = Some (VArray arr)
         \<and> int (length arr) = Max (set (indicesUnder k corpus)) + 1
         \<and> (\<forall>(i, c) \<in> set (arrayData g).
               \<exists>x. materialize buildArrayFromGroup buildObjectFromGroup c = Inr x
                 \<and> arr ! nat i = (case x of None \<Rightarrow> VNil | Some y \<Rightarrow> y))
         \<and> (\<forall>j < length arr. int j \<notin> set (indicesUnder k corpus) \<longrightarrow> arr ! j = VNil)"
proof -
  have "groupsInRange []" by (simp add: groupsInRange_def)
  from groupKeysLoop_total [OF ok [unfolded corpusInRange_def] this] obtain groups
    where kg: "groupKeysLoop pf corpus [] = Inr groups" and rng: "groupsInRange groups"
    by blast
  have "arrayNodeAt k {} []" by (simp add: arrayNodeAt_def)
  from loop_tracks_array [OF kg indexed this]
  have "arrayNodeAt k (set (indicesUnder k corpus)) groups" by simp
  then obtain g where g: "map_of groups k = Some g" "\<not> isSimple g" "gIsArray g"
    "fst ` set (arrayData g) = set (indicesUnder k corpus)" "distinct (map fst (arrayData g))"
    using supplied by (auto simp: arrayNodeAt_def split: option.splits)
  have gr: "indicesInRange g"
    using rng g(1) by (auto simp: groupsInRange_def list_all_iff dest: map_of_SomeD)
  have ne: "arrayData g \<noteq> []"
    using g(4) supplied by auto
  from emit_total [OF rng] obtain result where run: "rangeLoop groups emit [] = Inr result"
    by blast
  have res: "parseFormFlexibly pf corpus = Inr result"
    using kg run by (simp add: parseFormFlexibly_emit groupKeysByStructure_def)
  have "distinct (map fst groups)"
    using loop_distinct [OF kg] by simp
  from emit_loop_array [OF run this g(1,2,3)] obtain arr
    where arr: "buildArrayFromGroup g = Inr arr" "map_of result k = Some (VArray arr)"
    by blast
  from dense_array_node [OF gr ne g(5)] arr(1)
  have props: "int (length arr) = Max (fst ` set (arrayData g)) + 1"
    "\<forall>(i, c) \<in> set (arrayData g).
        \<exists>x. materialize buildArrayFromGroup buildObjectFromGroup c = Inr x
          \<and> arr ! nat i = (case x of None \<Rightarrow> VNil | Some y \<Rightarrow> y)"
    "\<forall>j < length arr. int j \<notin> fst ` set (arrayData g) \<longrightarrow> arr ! j = VNil"
    by auto
  show ?thesis
    using kg g(1,4) res arr(2) props by (auto simp: groupKeysByStructure_def)
qed

theorem indexed_key_dense_array_witness:
  "corpusInRange [(''a[3]'', [''x''])]
   \<and> onlyIndexedUnder ''a'' [(''a[3]'', [''x''])]
   \<and> indicesUnder ''a'' [(''a[3]'', [''x''])] = [3]
   \<and> parseFormFlexibly (\<lambda>_. None) [(''a[3]'', [''x''])]
       = Inr [(''a'', VArray [VNil, VNil, VNil, VString ''x''])]
   \<and> (\<exists>arr. map_of [(''a'', VArray [VNil, VNil, VNil, VString ''x''])] ''a'' = Some (VArray arr)
         \<and> int (length arr) = 3 + 1
         \<and> arr ! 0 = VNil \<and> arr ! 1 = VNil \<and> arr ! 2 = VNil)"
proof -
  let ?corpus = "[(''a[3]'', [''x''])]"
  have key: "keyInRange ''a[3]''" by code_simp
  then have 1: "corpusInRange ?corpus" by (simp add: corpusInRange_def)
  have 2: "onlyIndexedUnder ''a'' ?corpus"
    unfolding onlyIndexedUnder_def by code_simp
  have 3: "indicesUnder ''a'' ?corpus = [3]" by code_simp
  then have 5: "indicesUnder ''a'' ?corpus \<noteq> []" by simp
  have 4: "parseFormFlexibly (\<lambda>_. None) ?corpus = Inr [(''a'', VArray [VNil, VNil, VNil, VString ''x''])]"
    by code_simp
  from indexed_key_dense_array [OF 1 2 5, of "\<lambda>_. None"] obtain arr result
    where "parseFormFlexibly (\<lambda>_. None) ?corpus = Inr result" "map_of result ''a'' = Some (VArray arr)"
      "int (length arr) = Max (set (indicesUnder ''a'' ?corpus)) + 1"
      "\<forall>j < length arr. int j \<notin> set (indicesUnder ''a'' ?corpus) \<longrightarrow> arr ! j = VNil"
    by blast
  then have "\<exists>arr. map_of [(''a'', VArray [VNil, VNil, VNil, VString ''x''])] ''a'' = Some (VArray arr)
         \<and> int (length arr) = 3 + 1
         \<and> arr ! 0 = VNil \<and> arr ! 1 = VNil \<and> arr ! 2 = VNil"
    using 3 4 by auto
  then show ?thesis
    using 1 2 3 4 by blast
qed

text \<open>
  C5 (as stated) fails above that range: for the index \<open>2 ^ 44\<close> the length
  \<open>2 ^ 44 + 1\<close> is more than \<^verbatim>\<open>make\<close> accepts, for the index \<open>2 ^ 63 - 2\<close> as well, and for
  the index \<open>2 ^ 63 - 1\<close> the length \<^verbatim>\<open>maxIndex+1\<close> wraps to \<open>- (2 ^ 63)\<close>. No sequence is
  produced: the conversion panics. It panics as a whole, so a key supplied only at index
  3 yields no sequence either when another key of the corpus holds such an index.
\<close>

theorem out_of_range_index_counterexample:
  "parseFormFlexibly (\<lambda>_. None) [(''items[17592186044416]'', [''x''])]
       = Inl (Panic MakeSliceLenOutOfRange)
   \<and> parseFormFlexibly (\<lambda>_. None) [(''items[9223372036854775806]'', [''x''])]
       = Inl (Panic MakeSliceLenOutOfRange)
   \<and> parseFormFlexibly (\<lambda>_. None) [(''items[9223372036854775807]'', [''x''])]
       = Inl (Panic MakeSliceLenOutOfRange)
   \<and> parseFormFlexibly (\<lambda>_. None) [(''a[3]'', [''x'']), (''b[17592186044416]'', [''y''])]
       = Inl (Panic MakeSliceLenOutOfRange)"
  by code_simp

section \<open>Properties of the treatment of repeated keys\<close>

lemma groupKeysLoop_firstValues:
  "groupKeysLoop pf (firstValues corpus) groups = groupKeysLoop pf corpus groups"
proof (induction corpus arbitrary: groups)
  case Nil
  then show ?case by (simp add: firstValues_def)
next
  case (Cons entry rest)
  obtain key valueSlice where entry: "entry = (key, valueSlice)" by (cases entry)
  have step: "firstValues ((key, valueSlice) # rest) = (key, take 1 valueSlice) # firstValues rest"
    by (simp add: firstValues_def)
  show ?case
    unfolding entry step using Cons.IH
    by (cases valueSlice) (simp_all add: Let_def split: sum.splits)
qed

lemma findEntry_take1: "findEntry fName result (key, take 1 valueSlice) = findEntry fName result (key, valueSlice)"
  by (cases valueSlice) (simp_all add: findEntry_def)

lemma foldl_findEntry_firstValues:
  "foldl (findEntry fName) result (firstValues corpus) = foldl (findEntry fName) result corpus"
proof (induction corpus arbitrary: result)
  case Nil
  then show ?case by (simp add: firstValues_def)
next
  case (Cons entry rest)
  obtain key valueSlice where entry: "entry = (key, valueSlice)" by (cases entry)
  have step: "firstValues ((key, valueSlice) # rest) = (key, take 1 valueSlice) # firstValues rest"
    by (simp add: firstValues_def)
  show ?case
    unfolding entry step using Cons.IH by (simp add: findEntry_take1 [unfolded One_nat_def])
qed

lemma findFieldData_firstValues: "findFieldData (firstValues corpus) fName = findFieldData corpus fName"
  by (simp add: findFieldData_def foldl_findEntry_firstValues)

lemma parseStruct_firstValues:
  "parseStruct pf (firstValues corpus) fs target = parseStruct pf corpus fs target"
proof (induction fs arbitrary: target)
  case Nil
  then show ?case by simp
next
  case (Cons f fs)
  then show ?case
    by (cases target) (simp_all add: findFieldData_firstValues cong: sum.case_cong)
qed

text \<open>
  C6. Both paths read only the first value of a key: the generic conversion and the
  struct binder give the same result on a corpus and on the corpus reduced to the first
  value of every key. So \<open>k=v1&k=v2\<close> yields \<open>v1\<close>, and \<open>name=John&name=Jane\<close> binds
  \<open>John\<close>.
\<close>

theorem only_first_value_used:
  "parseFormFlexibly pf (firstValues corpus) = parseFormFlexibly pf corpus
   \<and> parseStruct pf (firstValues corpus) fs target = parseStruct pf corpus fs target
   \<and> FormToMap pf ''k=v1&k=v2'' = Inr [(''k'', VString ''v1'')]
   \<and> ParseForm pf ''name=John&name=Jane'' [StructField ''Name'' ''name'' True TString] [GString []]
       = Inr [GString ''John'']"
proof -
  have 1: "parseFormFlexibly pf (firstValues corpus) = parseFormFlexibly pf corpus"
    by (simp add: parseFormFlexibly_def groupKeysByStructure_def groupKeysLoop_firstValues)
  have 2: "FormToMap pf ''k=v1&k=v2'' = Inr [(''k'', VString ''v1'')]"
    by code_simp
  have 3: "ParseForm pf ''name=John&name=Jane'' [StructField ''Name'' ''name'' True TString] [GString []]
       = Inr [GString ''John'']"
    by code_simp
  show ?thesis
    using 1 2 3 by (simp add: parseStruct_firstValues)
qed

section \<open>The struct binder on slices and maps\<close>

text \<open>
  C8. For \<open>items[0][id]=1&items[1][id]=2\<close> and a destination with a slice of structs
  tagged \<open>items\<close>, the field stays nil. \<^verbatim>\<open>findFieldData\<close> has already removed the prefix
  \<open>items[\<close>, so \<^verbatim>\<open>parseSlice\<close> looks for the index in the second bracket group (\<open>id\<close>) and
  finds no indexed key.
\<close>

theorem slice_field_left_unset:
  "ParseForm pf ''items[0][id]=1&items[1][id]=2''
     [StructField ''Items'' ''items'' True (TSlice (TStruct [StructField ''ID'' ''id'' True (TInt 64)]))]
     [GNil]
   = Inr [GNil]
   \<and> findFieldData [(''items[0][id]'', [''1'']), (''items[1][id]'', [''2''])] ''items''
       = Some [(''0][id]'', ''1''), (''1][id]'', ''2'')]
   \<and> foldl indexKey [] [(''0][id]'', ''1''), (''1][id]'', ''2'')] = []"
  by code_simp

text \<open>
  C9. For \<open>m[k]=v\<close> and a destination with a map tagged \<open>m\<close>, the field stays nil:
  \<^verbatim>\<open>parseMap\<close> tests the prefix \<open>m[\<close> on keys from which \<^verbatim>\<open>findFieldData\<close> has removed it.
  Where a key does reach the map (\<open>m[m[k]=abc\<close>), a value that cannot be coerced is not
  skipped but stored as the zero value, because \<^verbatim>\<open>setValue\<close> returns a nil error on every
  path.
\<close>

theorem map_field_left_unset:
  "ParseForm pf ''m[k]=v'' [StructField ''M'' ''m'' True (TMap TString TString)] [GNil] = Inr [GNil]
   \<and> findFieldData [(''m[k]'', [''v''])] ''m'' = Some [(''k]'', ''v'')]
   \<and> ParseForm pf ''m[m[k]=abc'' [StructField ''M'' ''m'' True (TMap TString (TInt 64))] [GNil]
       = Inr [GMap [(GString ''k'', GInt 0)]]
   \<and> (case setValue pf canSet ty cur s of Inl e \<Rightarrow> True | Inr (x, err) \<Rightarrow> err = None)"
proof -
  have "case setValue pf canSet ty cur s of Inl e \<Rightarrow> True | Inr (x, err) \<Rightarrow> err = None"
    by (cases ty) (auto simp: setField_def split: option.splits sum.splits)
  moreover have "ParseForm pf ''m[k]=v'' [StructField ''M'' ''m'' True (TMap TString TString)] [GNil] = Inr [GNil]"
    by code_simp
  moreover have "findFieldData [(''m[k]'', [''v''])] ''m'' = Some [(''k]'', ''v'')]"
    by code_simp
  moreover have "ParseForm pf ''m[m[k]=abc'' [StructField ''M'' ''m'' True (TMap TString (TInt 64))] [GNil]
       = Inr [GMap [(GString ''k'', GInt 0)]]"
    by code_simp
  ultimately show ?thesis by blast
qed

section \<open>The two encoded entry points\<close>

text \<open>
  C10. On the two-line input \<open>a = 1\<close>, \<open>b = 2\<close> the entry points disagree: only
  \<^verbatim>\<open>FormToJSONEncoded\<close> normalizes the lines, and marshals the map with the keys \<open>a\<close> and
  \<open>b\<close>, while \<^verbatim>\<open>FormToMapEncoded\<close> returns a map with the single key \<open>a \<close> (with the
  space) bound to the rest of the input.
\<close>

theorem encoded_entry_points_differ:
  "FormToMapEncoded pf (''a = 1'' @ [CHR 0x0A] @ ''b = 2'')
     = Inr [(''a '', VString ('' 1'' @ [CHR 0x0A] @ ''b = 2''))]
   \<and> FormToJSONEncoded marshal pf (''a = 1'' @ [CHR 0x0A] @ ''b = 2'')
     = (case marshal [(''a'', VString ''1''), (''b'', VString ''2'')] of
          None \<Rightarrow> Inl MarshalError
        | Some jsonData \<Rightarrow> Inr jsonData)"
  by code_simp

section \<open>The generic conversion from the query string\<close>

text \<open>
  C1. The conversion does not always complete: a key with a closing bracket and no opening
  one panics in \<^verbatim>\<open>parseKeyStructure\<close> (slice bound \<open>- 1\<close>), and a bracket group holding a
  negative integer panics in \<^verbatim>\<open>buildArrayFromGroup\<close> (index \<open>- 1\<close> of a slice of length 1).
\<close>

theorem malformed_key_panics:
  "parseFormFlexibly pf [(''a]'', [''1''])] = Inl (Panic SliceBoundsOutOfRange)
   \<and> parseFormFlexibly pf [(''a[-1]'', [''1''])] = Inl (Panic IndexOutOfRange)
   \<and> FormToMap pf ''a]=1'' = Inl (Panic SliceBoundsOutOfRange)
   \<and> FormToMap pf ''a[-1]=1'' = Inl (Panic IndexOutOfRange)"
  by code_simp

text \<open>
  C3. A key without brackets keeps its raw string: \<open>age=25\<close> yields the string \<open>''25''\<close>,
  where the leaf coercion would yield the integer 25; and so for every key of the example
  \<open>age=25&price=99.99&active=true&name=John\<close>.
\<close>

theorem flat_value_not_coerced:
  "parseFormFlexibly pf [(''age'', [''25''])] = Inr [(''age'', VString ''25'')]
   \<and> convertValueToType pf ''25'' = VInt 25
   \<and> FormToMap pf ''age=25&price=99.99&active=true&name=John''
       = Inr [(''age'', VString ''25''), (''price'', VString ''99.99''),
              (''active'', VString ''true''), (''name'', VString ''John'')]"
  by code_simp

end
